theory Spec2Isabelle
  imports Complex_Main "HOL-Library.Word" "HOL-Library.AList" "HOL-Library.Sublist"
begin

unbundle bit_operations_syntax

section \<open>Conventions of the embedding\<close>

text \<open>
  The TypeScript sources are embedded function by function.  A JavaScript \<open>number\<close> that
  holds a measurement is a \<^typ>\<open>real\<close>; one that counts (loop bounds, node ids, array
  indices) is a \<^typ>\<open>nat\<close>; the bracket depth of the rewriting engine, which the code
  decrements without a guard, is an \<^typ>\<open>int\<close>.  Rounding, \<open>NaN\<close> and the infinities of
  floating-point numbers are not modelled.  The 32-bit integer arithmetic of the random
  generator is arithmetic on \<^typ>\<open>32 word\<close>.  A typed array is the list of its elements.
  Mutable objects become explicit state that each function returns updated; an access
  to a property of \<open>undefined\<close> is the error value \<open>TypeError\<close>.

  Record fields keep the names of the source; where two interfaces share a field name,
  or the name is a constant of HOL, the field carries a short prefix.
\<close>

datatype error = TypeError

section \<open>utils/math.ts\<close>

record Vec3 =
  vx :: real
  vy :: real
  vz :: real

definition vec3 :: "real \<Rightarrow> real \<Rightarrow> real \<Rightarrow> Vec3" where
  "vec3 a b c = \<lparr>vx = a, vy = b, vz = c\<rparr>"

definition addVec3 :: "Vec3 \<Rightarrow> Vec3 \<Rightarrow> Vec3" where
  "addVec3 a b = \<lparr>vx = vx a + vx b, vy = vy a + vy b, vz = vz a + vz b\<rparr>"

definition subVec3 :: "Vec3 \<Rightarrow> Vec3 \<Rightarrow> Vec3" where
  "subVec3 a b = \<lparr>vx = vx a - vx b, vy = vy a - vy b, vz = vz a - vz b\<rparr>"

definition scaleVec3 :: "Vec3 \<Rightarrow> real \<Rightarrow> Vec3" where
  "scaleVec3 v s = \<lparr>vx = vx v * s, vy = vy v * s, vz = vz v * s\<rparr>"

definition lengthVec3 :: "Vec3 \<Rightarrow> real" where
  "lengthVec3 v = sqrt (vx v * vx v + vy v * vy v + vz v * vz v)"

definition normalizeVec3 :: "Vec3 \<Rightarrow> Vec3" where
  "normalizeVec3 v =
     (let len = lengthVec3 v
      in if len = 0 then \<lparr>vx = 0, vy = 0, vz = 0\<rparr>
         else \<lparr>vx = vx v / len, vy = vy v / len, vz = vz v / len\<rparr>)"

definition crossVec3 :: "Vec3 \<Rightarrow> Vec3 \<Rightarrow> Vec3" where
  "crossVec3 a b =
     \<lparr>vx = vy a * vz b - vz a * vy b,
      vy = vz a * vx b - vx a * vz b,
      vz = vx a * vy b - vy a * vx b\<rparr>"

definition distanceVec3 :: "Vec3 \<Rightarrow> Vec3 \<Rightarrow> real" where
  "distanceVec3 a b = lengthVec3 (subVec3 b a)"

section \<open>utils/quaternion.ts\<close>

record Quat =
  qx :: real
  qy :: real
  qz :: real
  qw :: real

definition identityQuat :: Quat where
  "identityQuat = \<lparr>qx = 0, qy = 0, qz = 0, qw = 1\<rparr>"

definition multiplyQuat :: "Quat \<Rightarrow> Quat \<Rightarrow> Quat" where
  "multiplyQuat a b =
     \<lparr>qx = qw a * qx b + qx a * qw b + qy a * qz b - qz a * qy b,
      qy = qw a * qy b - qx a * qz b + qy a * qw b + qz a * qx b,
      qz = qw a * qz b + qx a * qy b - qy a * qx b + qz a * qw b,
      qw = qw a * qw b - qx a * qx b - qy a * qy b - qz a * qz b\<rparr>"

definition quatFromAxisAngle :: "Vec3 \<Rightarrow> real \<Rightarrow> Quat" where
  "quatFromAxisAngle axis angle =
     (let halfAngle = angle / 2;
          sinHalfAngle = sin halfAngle;
          cosHalfAngle = cos halfAngle
      in \<lparr>qx = vx axis * sinHalfAngle, qy = vy axis * sinHalfAngle,
          qz = vz axis * sinHalfAngle, qw = cosHalfAngle\<rparr>)"

definition rotateVec3ByQuat :: "Vec3 \<Rightarrow> Quat \<Rightarrow> Vec3" where
  "rotateVec3ByQuat v q =
     (let qv = \<lparr>vx = qx q, vy = qy q, vz = qz q\<rparr>;
          cross1 = crossVec3 qv v;
          cross2 = crossVec3 qv cross1;
          term1 = scaleVec3 cross1 (2 * qw q);
          term2 = scaleVec3 cross2 2
      in addVec3 (addVec3 v term1) term2)"

section \<open>lsystem/random.ts\<close>

type_synonym u32 = "32 word"

text \<open>
  \<open>xmur3\<close>: the loop over the characters of the seed, then the closure over the running
  hash \<open>h\<close>.  \<open>Math.imul\<close> is the wrapping product of two 32-bit words, \<open>h << 13 | h >>> 19\<close>
  a rotation.  A character is read by \<open>charCodeAt\<close>; the seed is a \<^typ>\<open>string\<close>, whose
  characters have the codes 0 to 255.
\<close>

fun xmur3_loop :: "u32 \<Rightarrow> string \<Rightarrow> u32" where
  "xmur3_loop h [] = h"
| "xmur3_loop h (ch # str) =
     (let h1 = (h XOR of_char ch) * 3432918353;
          h2 = push_bit 13 h1 OR drop_bit 19 h1
      in xmur3_loop h2 str)"

definition xmur3 :: "string \<Rightarrow> u32" where
  "xmur3 str = xmur3_loop (1779033703 XOR of_nat (length str)) str"

text \<open>One call of the function \<open>xmur3\<close> returns: the value, and the new \<open>h\<close>.\<close>

definition seedHash :: "u32 \<Rightarrow> u32 \<times> u32" where
  "seedHash h =
     (let h1 = (h XOR drop_bit 16 h) * 2246822507;
          h2 = (h1 XOR drop_bit 13 h1) * 3266489909;
          h3 = h2 XOR drop_bit 16 h2
      in (h3, h3))"

text \<open>
  The state of a generator is the four captured variables of \<open>sfc32\<close>.  Every method of
  the \<open>RandomGenerator\<close> object advances this state through \<open>nextRandom\<close>.
\<close>

record RandomGenerator =
  sfc_a :: u32
  sfc_b :: u32
  sfc_c :: u32
  sfc_d :: u32

definition nextRandom :: "RandomGenerator \<Rightarrow> real \<times> RandomGenerator" where
  "nextRandom g =
     (let t = sfc_a g + sfc_b g;
          a' = sfc_b g XOR drop_bit 9 (sfc_b g);
          b' = sfc_c g + push_bit 3 (sfc_c g);
          c' = push_bit 21 (sfc_c g) OR drop_bit 11 (sfc_c g);
          d' = sfc_d g + 1;
          t' = t + d';
          c'' = c' + t'
      in (real (unat t') / 4294967296,
          \<lparr>sfc_a = a', sfc_b = b', sfc_c = c'', sfc_d = d'\<rparr>))"

definition createRandom :: "string \<Rightarrow> RandomGenerator" where
  "createRandom seed0 =
     (let h0 = xmur3 seed0;
          (a0, h1) = seedHash h0;
          (b0, h2) = seedHash h1;
          (c0, h3) = seedHash h2;
          (d0, h4) = seedHash h3
      in \<lparr>sfc_a = a0, sfc_b = b0, sfc_c = c0, sfc_d = d0\<rparr>)"

definition random :: "RandomGenerator \<Rightarrow> real \<times> RandomGenerator" where
  "random g = nextRandom g"

definition randomRange :: "RandomGenerator \<Rightarrow> real \<Rightarrow> real \<Rightarrow> real \<times> RandomGenerator" where
  "randomRange g lo hi = (let (r, g') = nextRandom g in (lo + r * (hi - lo), g'))"


definition randomChance :: "RandomGenerator \<Rightarrow> real \<Rightarrow> bool \<times> RandomGenerator" where
  "randomChance g probability = (let (r, g') = nextRandom g in (r < probability, g'))"

text \<open>The generator after \<open>k\<close> draws, and the value of the draw that follows them.\<close>

fun advance :: "nat \<Rightarrow> RandomGenerator \<Rightarrow> RandomGenerator" where
  "advance 0 g = g"
| "advance (Suc k) g = advance k (snd (random g))"

definition draw :: "RandomGenerator \<Rightarrow> nat \<Rightarrow> real" where
  "draw g k = fst (random (advance k g))"

section \<open>lsystem/symbols.ts\<close>

record SymbolParams =
  p_length :: "real option"
  p_radius :: "real option"
  p_angle :: "real option"
  p_size :: "real option"
  p_age :: "real option"

text \<open>The object literal \<open>{}\<close>, every optional parameter absent.\<close>

definition noParams :: SymbolParams where
  "noParams = \<lparr>p_length = None, p_radius = None, p_angle = None, p_size = None, p_age = None\<rparr>"

record Symbol =
  symbol :: string
  params :: SymbolParams

record LSystemConfig =
  baseLength :: real
  baseRadius :: real
  lengthFalloff :: real
  radiusFalloff :: real
  branchAngle :: real
  variability :: real

text \<open>
  \<open>produce: string | ProduceFunction\<close>.  A function production receives the symbol, the
  generator, the configuration and the depth; it returns its symbols and the generator
  as it left it.
\<close>

datatype Produce =
    Literal string
  | Generator "Symbol \<Rightarrow> RandomGenerator \<Rightarrow> LSystemConfig \<Rightarrow> int \<Rightarrow> Symbol list \<times> RandomGenerator"

record Rule =
  match :: string
  odds :: real
  produce :: Produce

record LSystem =
  axiom :: string
  rules :: "Rule list"
  config :: LSystemConfig

section \<open>lsystem/engine.ts\<close>

text \<open>
  The loop of \<open>selectRule\<close> that accumulates the odds and returns at the first rule whose
  running total exceeds the drawn value; \<open>None\<close> when the loop ends without returning.
\<close>

fun selectRule_loop :: "real \<Rightarrow> real \<Rightarrow> Rule list \<Rightarrow> Rule option" where
  "selectRule_loop randomValue accumulated [] = None"
| "selectRule_loop randomValue accumulated (rule # rest) =
     (let accumulated' = accumulated + odds rule
      in if randomValue < accumulated' then Some rule
         else selectRule_loop randomValue accumulated' rest)"

text \<open>\<open>rules[rules.length - 1]\<close>, which is \<open>undefined\<close> (\<open>None\<close>) for the empty array.\<close>

definition lastRule :: "Rule list \<Rightarrow> Rule option" where
  "lastRule rs = (if rs = [] then None else Some (rs ! (length rs - 1)))"

definition selectRule :: "Rule list \<Rightarrow> RandomGenerator \<Rightarrow> Rule option \<times> RandomGenerator" where
  "selectRule rs g =
     (if length rs = 1 then (Some (rs ! 0), g)
      else
        let totalOdds = foldl (\<lambda>s rule. s + odds rule) 0 rs;
            (r, g') = random g;
            randomValue = r * totalOdds
        in case selectRule_loop randomValue 0 rs of
             Some rule \<Rightarrow> (Some rule, g')
           | None \<Rightarrow> (lastRule rs, g'))"

text \<open>
  \<open>Math.pow\<close> at an integral exponent.  (At base 0 and a negative exponent JavaScript
  yields \<open>Infinity\<close>, which no real number stands for.)
\<close>

definition Math_pow :: "real \<Rightarrow> int \<Rightarrow> real" where
  "Math_pow b e = b powi e"

definition getVariabilityFactor :: "LSystemConfig \<Rightarrow> RandomGenerator \<Rightarrow> real \<times> RandomGenerator" where
  "getVariabilityFactor cfg g =
     (if variability cfg = 0 then (1, g)
      else let (r, g') = random g in (1 + variability cfg * (r - 0.5) * 2, g'))"

definition rotationSymbols :: "string list" where
  "rotationSymbols = [''+'', ''-'', ''^'', ''&'', ''/'', [CHR 0x5C]]"

definition createSymbol ::
  "string \<Rightarrow> RandomGenerator \<Rightarrow> LSystemConfig \<Rightarrow> int \<Rightarrow> Symbol \<times> RandomGenerator" where
  "createSymbol char g cfg d =
     (if char = ''F'' then
        let baseLengthWithFalloff = baseLength cfg * Math_pow (lengthFalloff cfg) d;
            (f, g') = getVariabilityFactor cfg g;
            len = baseLengthWithFalloff * f
        in (\<lparr>symbol = char, params = noParams\<lparr>p_length := Some len\<rparr>\<rparr>, g')
      else if char \<in> set rotationSymbols then
        let (f, g') = getVariabilityFactor cfg g;
            angle = branchAngle cfg * f
        in (\<lparr>symbol = char, params = noParams\<lparr>p_angle := Some angle\<rparr>\<rparr>, g')
      else if char = ''L'' then
        (\<lparr>symbol = char, params = noParams\<lparr>p_size := Some 1\<rparr>\<rparr>, g)
      else (\<lparr>symbol = char, params = noParams\<rparr>, g))"

text \<open>\<open>parseProduction\<close>: one symbol per character of the production, in order.\<close>

fun parseProduction_loop ::
  "string \<Rightarrow> Symbol list \<Rightarrow> RandomGenerator \<Rightarrow> LSystemConfig \<Rightarrow> int
     \<Rightarrow> Symbol list \<times> RandomGenerator" where
  "parseProduction_loop [] symbols g cfg d = (symbols, g)"
| "parseProduction_loop (ch # production) symbols g cfg d =
     (let (sy, g') = createSymbol [ch] g cfg d
      in parseProduction_loop production (symbols @ [sy]) g' cfg d)"

definition parseProduction ::
  "string \<Rightarrow> RandomGenerator \<Rightarrow> LSystemConfig \<Rightarrow> int \<Rightarrow> Symbol list \<times> RandomGenerator" where
  "parseProduction production g cfg d = parseProduction_loop production [] g cfg d"

text \<open>
  The loop of \<open>applyRules\<close> over the sentence, with its variables \<open>result\<close>, \<open>depth\<close> and
  the generator.  \<open>selectRule\<close> returning \<open>undefined\<close> would make \<open>selectedRule.produce\<close>
  throw.
\<close>

fun applyRules_loop ::
  "Symbol list \<Rightarrow> Rule list \<Rightarrow> LSystemConfig \<Rightarrow> Symbol list \<Rightarrow> int \<Rightarrow> RandomGenerator
     \<Rightarrow> error + (Symbol list \<times> RandomGenerator)" where
  "applyRules_loop [] rs cfg result d g = Inr (result, g)"
| "applyRules_loop (sy # sentence) rs cfg result d g =
     (if symbol sy = ''['' then applyRules_loop sentence rs cfg (result @ [sy]) (d + 1) g
      else if symbol sy = '']'' then applyRules_loop sentence rs cfg (result @ [sy]) (d - 1) g
      else
        let matchingRules = filter (\<lambda>rule. match rule = symbol sy) rs
        in if length matchingRules = 0 then
             applyRules_loop sentence rs cfg (result @ [sy]) d g
           else
             case selectRule matchingRules g of
               (None, g1) \<Rightarrow> Inl TypeError
             | (Some selectedRule, g1) \<Rightarrow>
                 (case produce selectedRule of
                    Literal production \<Rightarrow>
                      (let (newSymbols, g2) = parseProduction production g1 cfg d
                       in applyRules_loop sentence rs cfg (result @ newSymbols) d g2)
                  | Generator produceFunc \<Rightarrow>
                      (let (newSymbols, g2) = produceFunc sy g1 cfg d
                       in applyRules_loop sentence rs cfg (result @ newSymbols) d g2)))"

definition applyRules ::
  "Symbol list \<Rightarrow> Rule list \<Rightarrow> RandomGenerator \<Rightarrow> LSystemConfig
     \<Rightarrow> error + (Symbol list \<times> RandomGenerator)" where
  "applyRules sentence rs g cfg = applyRules_loop sentence rs cfg [] 0 g"

text \<open>The loop of \<open>generateSentence\<close>: \<open>iterations\<close> passes over the same generator.\<close>

fun generateSentence_loop ::
  "nat \<Rightarrow> LSystem \<Rightarrow> Symbol list \<Rightarrow> RandomGenerator \<Rightarrow> error + (Symbol list \<times> RandomGenerator)" where
  "generateSentence_loop 0 ls sentence g = Inr (sentence, g)"
| "generateSentence_loop (Suc n) ls sentence g =
     (case applyRules sentence (rules ls) g (config ls) of
        Inl e \<Rightarrow> Inl e
      | Inr (sentence', g') \<Rightarrow> generateSentence_loop n ls sentence' g')"

definition generateSentence :: "LSystem \<Rightarrow> nat \<Rightarrow> string \<Rightarrow> error + Symbol list" where
  "generateSentence ls iterations seed0 =
     (let g = createRandom seed0;
          (sentence, g') = parseProduction (axiom ls) g (config ls) 0
      in case generateSentence_loop iterations ls sentence g' of
           Inl e \<Rightarrow> Inl e
         | Inr (sentence', g'') \<Rightarrow> Inr sentence')"

section \<open>tree/skeleton.ts\<close>

record SkeletonNode =
  n_id :: nat
  n_position :: Vec3
  n_orientation :: Quat
  n_radius :: real
  parentId :: "nat option"
  n_depth :: nat
  isTerminal :: bool
  isBranchPoint :: bool

record SkeletonSegment =
  startNodeId :: nat
  endNodeId :: nat
  startRadius :: real
  endRadius :: real
  s_length :: real

record LeafPoint =
  l_position :: Vec3
  l_orientation :: Quat
  l_size :: real

record Skeleton =
  nodes :: "SkeletonNode list"
  segments :: "SkeletonSegment list"
  leaves :: "LeafPoint list"

record TurtleConfig =
  t_baseRadius :: real
  t_radiusFalloff :: real
  upVector :: Vec3
  forwardVector :: Vec3

record GeometryData =
  positions :: "real list"
  normals :: "real list"
  uvs :: "real list"
  indices :: "nat list"

record BranchGeometryConfig =
  radialSegments :: nat
  textureRepeatY :: real

record LeafShapeConfig =
  width :: real
  shape_length :: real
  curvature :: real
  shape_segments :: nat

record RGB =
  cr :: real
  cg :: real
  cb :: real

record LeafInstanceConfig =
  baseColor :: RGB
  colorVariation :: real
  sizeVariation :: real
  rotationScatter :: real
  leaf_seed :: string

record LeafInstanceData =
  matrices :: "real list"
  colors :: "real list"
  count :: nat

section \<open>tree/turtle3d.ts\<close>

record TurtleState =
  position :: Vec3
  orientation :: Quat
  radius :: real
  depth :: nat
  currentNodeId :: nat

definition degreesToRadians :: "real \<Rightarrow> real" where
  "degreesToRadians degrees = (degrees * pi) / 180"

definition getForward :: "Quat \<Rightarrow> Vec3" where
  "getForward q = rotateVec3ByQuat (vec3 0 1 0) q"

definition getRight :: "Quat \<Rightarrow> Vec3" where
  "getRight q = rotateVec3ByQuat (vec3 1 0 0) q"

definition getUp :: "Quat \<Rightarrow> Vec3" where
  "getUp q = rotateVec3ByQuat (vec3 0 0 1) q"

definition cloneTurtleState :: "TurtleState \<Rightarrow> TurtleState" where
  "cloneTurtleState st =
     \<lparr>position = position st, orientation = orientation st, radius = radius st,
      depth = depth st, currentNodeId = currentNodeId st\<rparr>"

definition createNode ::
  "nat \<Rightarrow> Vec3 \<Rightarrow> Quat \<Rightarrow> real \<Rightarrow> nat option \<Rightarrow> nat \<Rightarrow> SkeletonNode" where
  "createNode i pos ori rad parent dep =
     \<lparr>n_id = i, n_position = pos, n_orientation = ori, n_radius = rad, parentId = parent,
      n_depth = dep, isTerminal = False, isBranchPoint = False\<rparr>"

definition createSegment :: "SkeletonNode \<Rightarrow> SkeletonNode \<Rightarrow> real \<Rightarrow> SkeletonSegment" where
  "createSegment startNode endNode len =
     \<lparr>startNodeId = n_id startNode, endNodeId = n_id endNode,
      startRadius = n_radius startNode, endRadius = n_radius endNode, s_length = len\<rparr>"

text \<open>
  The local variables of \<open>interpretSentence\<close> that the loop over the sentence changes.
  \<open>childCounts\<close> is a JavaScript \<open>Map\<close>: an association list in insertion order, where
  \<open>set\<close> on a present key keeps the key's place.  \<open>stateStack\<close> has its top at the head.
\<close>

record Interp =
  i_nodes :: "SkeletonNode list"
  i_segments :: "SkeletonSegment list"
  i_leaves :: "LeafPoint list"
  childCounts :: "(nat \<times> nat) list"
  nextNodeId :: nat
  stateStack :: "TurtleState list"
  state :: TurtleState

text \<open>A yaw, pitch or roll: \<open>state.orientation = orientation * rotation\<close>.\<close>

definition rotateState :: "Vec3 \<Rightarrow> real \<Rightarrow> Interp \<Rightarrow> Interp" where
  "rotateState axis angleRadians it =
     (let rotation = quatFromAxisAngle axis angleRadians
      in it\<lparr>state := (state it)\<lparr>orientation := multiplyQuat (orientation (state it)) rotation\<rparr>\<rparr>)"

definition angleOr30 :: "Symbol \<Rightarrow> real" where
  "angleOr30 sy = (case p_angle (params sy) of None \<Rightarrow> 30 | Some a \<Rightarrow> a)"

text \<open>The body of the loop: the \<open>switch\<close> on one symbol.\<close>

definition interpretSymbol :: "TurtleConfig \<Rightarrow> Symbol \<Rightarrow> Interp \<Rightarrow> error + Interp" where
  "interpretSymbol cfg sy it =
     (let st = state it in
      if symbol sy = ''F'' then
        let len = (case p_length (params sy) of None \<Rightarrow> 1 | Some l \<Rightarrow> l);
            forward = getForward (orientation st);
            movement = scaleVec3 forward len;
            newPosition = addVec3 (position st) movement;
            newRadius = t_baseRadius cfg * t_radiusFalloff cfg ^ depth st;
            newNode = createNode (nextNodeId it) newPosition (orientation st) newRadius
                        (Some (currentNodeId st)) (depth st);
            nodes' = i_nodes it @ [newNode]
        in case find (\<lambda>n. n_id n = currentNodeId st) nodes' of
             None \<Rightarrow> Inl TypeError
           | Some currentNode \<Rightarrow>
               let segment = createSegment currentNode newNode len;
                   currentCount = (case map_of (childCounts it) (currentNodeId st) of
                                     None \<Rightarrow> 0 | Some c \<Rightarrow> c)
               in Inr (it\<lparr>i_nodes := nodes',
                          nextNodeId := nextNodeId it + 1,
                          i_segments := i_segments it @ [segment],
                          childCounts :=
                            AList.update (currentNodeId st) (currentCount + 1) (childCounts it),
                          state := st\<lparr>position := newPosition, radius := newRadius,
                                       currentNodeId := n_id newNode\<rparr>\<rparr>)
      else if symbol sy = ''+'' then
        Inr (rotateState (getUp (orientation st)) (degreesToRadians (angleOr30 sy)) it)
      else if symbol sy = ''-'' then
        Inr (rotateState (getUp (orientation st)) (degreesToRadians (- angleOr30 sy)) it)
      else if symbol sy = ''^'' then
        Inr (rotateState (getRight (orientation st)) (degreesToRadians (angleOr30 sy)) it)
      else if symbol sy = ''&'' then
        Inr (rotateState (getRight (orientation st)) (degreesToRadians (- angleOr30 sy)) it)
      else if symbol sy = ''/'' then
        Inr (rotateState (getForward (orientation st)) (degreesToRadians (angleOr30 sy)) it)
      else if symbol sy = [CHR 0x5C] then
        Inr (rotateState (getForward (orientation st)) (degreesToRadians (- angleOr30 sy)) it)
      else if symbol sy = ''['' then
        Inr (it\<lparr>stateStack := cloneTurtleState st # stateStack it,
                 state := st\<lparr>depth := depth st + 1\<rparr>\<rparr>)
      else if symbol sy = '']'' then
        (case stateStack it of
           [] \<Rightarrow> Inr it
         | savedState # rest \<Rightarrow> Inr (it\<lparr>stateStack := rest, state := savedState\<rparr>))
      else if symbol sy = ''L'' then
        let leafSize = (case p_size (params sy) of None \<Rightarrow> 1 | Some s \<Rightarrow> s);
            leaf = \<lparr>l_position = position st, l_orientation = orientation st, l_size = leafSize\<rparr>
        in Inr (it\<lparr>i_leaves := i_leaves it @ [leaf]\<rparr>)
      else Inr it)"

fun interpretSymbols :: "TurtleConfig \<Rightarrow> Symbol list \<Rightarrow> Interp \<Rightarrow> error + Interp" where
  "interpretSymbols cfg [] it = Inr it"
| "interpretSymbols cfg (sy # sentence) it =
     (case interpretSymbol cfg sy it of
        Inl e \<Rightarrow> Inl e
      | Inr it' \<Rightarrow> interpretSymbols cfg sentence it')"

text \<open>
  \<open>nodes.find(n => n.id === nodeId)\<close> followed by \<open>node.isBranchPoint = true\<close>: the first
  node with that id is the one changed; no node with that id, nothing changes.
\<close>

fun setBranchPoint :: "nat \<Rightarrow> SkeletonNode list \<Rightarrow> SkeletonNode list" where
  "setBranchPoint nodeId [] = []"
| "setBranchPoint nodeId (n # ns) =
     (if n_id n = nodeId then n\<lparr>isBranchPoint := True\<rparr> # ns
      else n # setBranchPoint nodeId ns)"

fun markBranchPoints :: "(nat \<times> nat) list \<Rightarrow> SkeletonNode list \<Rightarrow> SkeletonNode list" where
  "markBranchPoints [] ns = ns"
| "markBranchPoints ((nodeId, cnt) # entries) ns =
     markBranchPoints entries (if cnt > 1 then setBranchPoint nodeId ns else ns)"

definition markTerminals :: "SkeletonSegment list \<Rightarrow> SkeletonNode list \<Rightarrow> SkeletonNode list" where
  "markTerminals segs ns =
     (let nodesWithOutgoingSegments = map startNodeId segs
      in map (\<lambda>node. if n_id node \<notin> set nodesWithOutgoingSegments
                      then node\<lparr>isTerminal := True\<rparr> else node) ns)"

definition initialInterp :: "TurtleConfig \<Rightarrow> Interp" where
  "initialInterp cfg =
     (let initialState = \<lparr>position = vec3 0 0 0, orientation = identityQuat,
                          radius = t_baseRadius cfg, depth = 0, currentNodeId = 0\<rparr>;
          rootNode = createNode 0 (position initialState) (orientation initialState)
                       (radius initialState) None 0
      in \<lparr>i_nodes = [rootNode], i_segments = [], i_leaves = [], childCounts = [],
          nextNodeId = 1, stateStack = [], state = cloneTurtleState initialState\<rparr>)"

definition interpretSentence :: "Symbol list \<Rightarrow> TurtleConfig \<Rightarrow> error + Skeleton" where
  "interpretSentence sentence cfg =
     (case interpretSymbols cfg sentence (initialInterp cfg) of
        Inl e \<Rightarrow> Inl e
      | Inr it \<Rightarrow>
          Inr \<lparr>nodes = markTerminals (i_segments it)
                         (markBranchPoints (childCounts it) (i_nodes it)),
               segments = i_segments it,
               leaves = i_leaves it\<rparr>)"

section \<open>tree/uvMapping.ts\<close>

record UV =
  uv_u :: real
  uv_v :: real

record SegmentInfo =
  info_length :: real

definition calculateBranchUV ::
  "nat \<Rightarrow> nat \<Rightarrow> nat \<Rightarrow> nat \<Rightarrow> real \<Rightarrow> real \<Rightarrow> real \<Rightarrow> UV" where
  "calculateBranchUV ringIndex vertexIndex totalRings radialSegs segmentLength textureScale vOffset =
     (let u = real vertexIndex / real radialSegs;
          ringProgress = (if totalRings > 1 then real ringIndex / (real totalRings - 1) else 0);
          v = vOffset + ringProgress * segmentLength * textureScale
      in \<lparr>uv_u = u, uv_v = v\<rparr>)"

text \<open>
  \<open>calculateVOffset\<close> reads \<open>segments[i].length\<close> for every \<open>i\<close> below \<open>segmentIndex\<close>; past
  the end of the array the element is \<open>undefined\<close> and the read throws.
\<close>

definition calculateVOffset :: "nat \<Rightarrow> SegmentInfo list \<Rightarrow> real \<Rightarrow> error + real" where
  "calculateVOffset segmentIndex segs textureScale =
     (if segmentIndex = 0 then Inr 0
      else if segmentIndex \<le> length segs then
        Inr (fold (\<lambda>i offset. offset + info_length (segs ! i) * textureScale) [0..<segmentIndex] 0)
      else Inl TypeError)"

section \<open>tree/branchGeometry.ts\<close>

record RingData =
  ring_positions :: "real list"
  ring_normals :: "real list"

text \<open>The body of the loop of \<open>generateRing\<close>, for vertex \<open>i\<close>.\<close>

definition generateRing_step :: "Vec3 \<Rightarrow> Quat \<Rightarrow> real \<Rightarrow> nat \<Rightarrow> nat \<Rightarrow> RingData \<Rightarrow> RingData" where
  "generateRing_step center ori rad segs i ring =
     (let angle = (real i * 2 * pi) / real segs;
          localPos = vec3 (cos angle * rad) 0 (sin angle * rad);
          rotatedPos = rotateVec3ByQuat localPos ori;
          worldPos = addVec3 center rotatedPos;
          normal = normalizeVec3 rotatedPos
      in \<lparr>ring_positions = ring_positions ring @ [vx worldPos, vy worldPos, vz worldPos],
          ring_normals = ring_normals ring @ [vx normal, vy normal, vz normal]\<rparr>)"

definition generateRing :: "Vec3 \<Rightarrow> Quat \<Rightarrow> real \<Rightarrow> nat \<Rightarrow> RingData" where
  "generateRing center ori rad segs =
     fold (generateRing_step center ori rad segs) [0..<segs]
       \<lparr>ring_positions = [], ring_normals = []\<rparr>"

definition connectRings :: "nat \<Rightarrow> nat \<Rightarrow> nat \<Rightarrow> nat list" where
  "connectRings ring1Offset ring2Offset segs =
     fold (\<lambda>i idx.
             let r1Current = ring1Offset + i;
                 r2Current = ring2Offset + i;
                 r1Next = ring1Offset + ((i + 1) mod segs);
                 r2Next = ring2Offset + ((i + 1) mod segs)
             in idx @ [r1Current, r2Current, r1Next] @ [r1Next, r2Current, r2Next])
       [0..<segs] []"

text \<open>The accumulators of \<open>buildBranchGeometry\<close>.\<close>

record BranchAcc =
  allPositions :: "real list"
  allNormals :: "real list"
  allUvs :: "real list"
  allIndices :: "nat list"
  vertexOffset :: nat

text \<open>The two loops that push the UVs of one ring.\<close>

definition ringUvs :: "nat \<Rightarrow> nat \<Rightarrow> real \<Rightarrow> real \<Rightarrow> real \<Rightarrow> real list \<Rightarrow> real list" where
  "ringUvs ringIndex radialSegs segmentLength textureScale vOffset uvs0 =
     fold (\<lambda>i acc.
             let uv = calculateBranchUV ringIndex i 2 radialSegs segmentLength textureScale vOffset
             in acc @ [uv_u uv, uv_v uv])
       [0..<radialSegs] uvs0"

text \<open>
  The callback of \<open>skeleton.segments.forEach\<close>.  A segment whose start or end node is
  not among the nodes makes \<open>startNode.position\<close> (or \<open>endNode.position\<close>) throw.
\<close>

definition buildBranchGeometry_step ::
  "Skeleton \<Rightarrow> BranchGeometryConfig \<Rightarrow> SegmentInfo list \<Rightarrow> SkeletonSegment \<Rightarrow> nat
     \<Rightarrow> BranchAcc \<Rightarrow> error + BranchAcc" where
  "buildBranchGeometry_step skeleton cfg segmentInfos segment segmentIndex acc =
     (case calculateVOffset segmentIndex segmentInfos (textureRepeatY cfg) of
        Inl e \<Rightarrow> Inl e
      | Inr vOffset \<Rightarrow>
     (case find (\<lambda>n. n_id n = startNodeId segment) (nodes skeleton) of
        None \<Rightarrow> Inl TypeError
      | Some startNode \<Rightarrow>
     (case find (\<lambda>n. n_id n = endNodeId segment) (nodes skeleton) of
        None \<Rightarrow> Inl TypeError
      | Some endNode \<Rightarrow>
          let startRing = generateRing (n_position startNode) (n_orientation startNode)
                            (startRadius segment) (radialSegments cfg);
              endRing = generateRing (n_position endNode) (n_orientation endNode)
                            (endRadius segment) (radialSegments cfg);
              ring1Offset = vertexOffset acc;
              ring2Offset = vertexOffset acc + radialSegments cfg;
              uvs1 = ringUvs 0 (radialSegments cfg) (s_length segment) (textureRepeatY cfg)
                       vOffset (allUvs acc);
              uvs2 = ringUvs 1 (radialSegments cfg) (s_length segment) (textureRepeatY cfg)
                       vOffset uvs1;
              segmentIndices = connectRings ring1Offset ring2Offset (radialSegments cfg)
          in Inr \<lparr>allPositions = allPositions acc @ ring_positions startRing
                                     @ ring_positions endRing,
                   allNormals = allNormals acc @ ring_normals startRing @ ring_normals endRing,
                   allUvs = uvs2,
                   allIndices = allIndices acc @ segmentIndices,
                   vertexOffset = vertexOffset acc + radialSegments cfg * 2\<rparr>)))"

fun buildBranchGeometry_loop ::
  "Skeleton \<Rightarrow> BranchGeometryConfig \<Rightarrow> SegmentInfo list \<Rightarrow> SkeletonSegment list \<Rightarrow> nat
     \<Rightarrow> BranchAcc \<Rightarrow> error + BranchAcc" where
  "buildBranchGeometry_loop skeleton cfg segmentInfos [] segmentIndex acc = Inr acc"
| "buildBranchGeometry_loop skeleton cfg segmentInfos (segment # rest) segmentIndex acc =
     (case buildBranchGeometry_step skeleton cfg segmentInfos segment segmentIndex acc of
        Inl e \<Rightarrow> Inl e
      | Inr acc' \<Rightarrow>
          buildBranchGeometry_loop skeleton cfg segmentInfos rest (segmentIndex + 1) acc')"

definition buildBranchGeometry :: "Skeleton \<Rightarrow> BranchGeometryConfig \<Rightarrow> error + GeometryData" where
  "buildBranchGeometry skeleton cfg =
     (let segmentInfos = map (\<lambda>seg. \<lparr>info_length = s_length seg\<rparr>) (segments skeleton)
      in case buildBranchGeometry_loop skeleton cfg segmentInfos (segments skeleton) 0
                \<lparr>allPositions = [], allNormals = [], allUvs = [], allIndices = [],
                 vertexOffset = 0\<rparr> of
           Inl e \<Rightarrow> Inl e
         | Inr acc \<Rightarrow>
             Inr \<lparr>positions = allPositions acc, normals = allNormals acc,
                  uvs = allUvs acc, indices = allIndices acc\<rparr>)"

section \<open>tree/leafGeometry.ts\<close>

text \<open>
  \<open>createLeafShape\<close> allocates its four typed arrays (zero-filled) and writes them by
  index; a write past the end of a typed array is ignored, as \<open>xs[i := v]\<close> is.  With
  \<open>segments = 0\<close> the quotient \<open>row / segments\<close> is \<open>NaN\<close> in JavaScript and 0 here.
\<close>

definition leafShape_vertices ::
  "LeafShapeConfig \<Rightarrow> nat \<Rightarrow> real list \<times> real list \<Rightarrow> real list \<times> real list" where
  "leafShape_vertices cfg row = (\<lambda>(ps, us).
     let halfWidth = width cfg / 2;
         t = real row / real (shape_segments cfg);
         y = t * shape_length cfg;
         z = curvature cfg * t * t * shape_length cfg;
         leftIndex = row * 2;
         rightIndex = row * 2 + 1
     in (ps[leftIndex * 3 + 0 := - halfWidth, leftIndex * 3 + 1 := y, leftIndex * 3 + 2 := z,
            rightIndex * 3 + 0 := halfWidth, rightIndex * 3 + 1 := y, rightIndex * 3 + 2 := z],
         us[leftIndex * 2 + 0 := 0, leftIndex * 2 + 1 := t,
            rightIndex * 2 + 0 := 1, rightIndex * 2 + 1 := t]))"

definition leafShape_normals :: "LeafShapeConfig \<Rightarrow> nat \<Rightarrow> real list \<Rightarrow> real list" where
  "leafShape_normals cfg row ns =
     (let t = real row / real (shape_segments cfg);
          dzdy = 2 * curvature cfg * t;
          tangentY = normalizeVec3 (vec3 0 1 dzdy);
          tangentX = vec3 1 0 0;
          normal = normalizeVec3 (crossVec3 tangentX tangentY);
          leftIndex = row * 2;
          rightIndex = row * 2 + 1
      in ns[leftIndex * 3 + 0 := vx normal, leftIndex * 3 + 1 := vy normal,
            leftIndex * 3 + 2 := vz normal,
            rightIndex * 3 + 0 := vx normal, rightIndex * 3 + 1 := vy normal,
            rightIndex * 3 + 2 := vz normal])"

definition leafShape_indices :: "nat \<Rightarrow> nat list \<times> nat \<Rightarrow> nat list \<times> nat" where
  "leafShape_indices seg = (\<lambda>(idx, indexOffset).
     let bottomLeft = seg * 2;
         bottomRight = seg * 2 + 1;
         topLeft = (seg + 1) * 2;
         topRight = (seg + 1) * 2 + 1
     in (idx[indexOffset := bottomLeft, indexOffset + 1 := topLeft, indexOffset + 2 := topRight,
             indexOffset + 3 := bottomLeft, indexOffset + 4 := topRight,
             indexOffset + 5 := bottomRight],
         indexOffset + 6))"

definition createLeafShape :: "LeafShapeConfig \<Rightarrow> GeometryData" where
  "createLeafShape cfg =
     (let rowCount = shape_segments cfg + 1;
          vertexCount = rowCount * 2;
          triangleCount = shape_segments cfg * 2;
          (ps, us) = fold (leafShape_vertices cfg) [0..<rowCount]
                       (replicate (vertexCount * 3) 0, replicate (vertexCount * 2) 0);
          ns = fold (leafShape_normals cfg) [0..<rowCount] (replicate (vertexCount * 3) 0);
          (idx, indexOffset) = fold leafShape_indices [0..<shape_segments cfg]
                                 (replicate (triangleCount * 3) 0, 0)
      in \<lparr>positions = ps, normals = ns, uvs = us, indices = idx\<rparr>)"

text \<open>
  Writing the values \<open>vs\<close> at the consecutive indices \<open>k\<close>, \<open>k + 1\<close>, \<dots> of a typed array.
\<close>

fun writeFrom :: "nat \<Rightarrow> 'a list \<Rightarrow> 'a list \<Rightarrow> 'a list" where
  "writeFrom k [] xs = xs"
| "writeFrom k (v # vs) xs = writeFrom (k + 1) vs (xs[k := v])"

text \<open>
  The body of the loop of \<open>buildLeafInstances\<close> computes, from seven draws, three colour
  channels and the sixteen entries of a column-major matrix, and writes them at
  \<open>i * 3\<close> and \<open>i * 16\<close>.  \<open>instanceColor\<close> and \<open>instanceMatrix\<close> are these computations,
  as functions of the draws.
\<close>

definition instanceColor :: "LeafInstanceConfig \<Rightarrow> real \<Rightarrow> real \<Rightarrow> real \<Rightarrow> real list" where
  "instanceColor cfg d5 d6 d7 =
     (let rVar = (d5 * 2 - 1) * colorVariation cfg;
          gVar = (d6 * 2 - 1) * colorVariation cfg;
          bVar = (d7 * 2 - 1) * colorVariation cfg
      in [max 0 (min 1 (cr (baseColor cfg) + rVar)),
          max 0 (min 1 (cg (baseColor cfg) + gVar)),
          max 0 (min 1 (cb (baseColor cfg) + bVar))])"

definition instanceMatrix ::
  "LeafInstanceConfig \<Rightarrow> LeafPoint \<Rightarrow> real \<Rightarrow> real \<Rightarrow> real \<Rightarrow> real \<Rightarrow> real list" where
  "instanceMatrix cfg leaf d1 d2 d3 d4 =
     (let sizeMult = 1 + (d1 * 2 - 1) * sizeVariation cfg;
          scatterX = (d2 * 2 - 1) * rotationScatter cfg;
          scatterY = (d3 * 2 - 1) * rotationScatter cfg;
          scatterZ = (d4 * 2 - 1) * rotationScatter cfg;
          q = (if rotationScatter cfg > 0 then
                 let scatterQuatX = quatFromAxisAngle (vec3 1 0 0) scatterX;
                     scatterQuatY = quatFromAxisAngle (vec3 0 1 0) scatterY;
                     scatterQuatZ = quatFromAxisAngle (vec3 0 0 1) scatterZ
                 in multiplyQuat (l_orientation leaf)
                      (multiplyQuat scatterQuatX (multiplyQuat scatterQuatY scatterQuatZ))
               else l_orientation leaf);
          scale = l_size leaf * sizeMult;
          xx = qx q * qx q; yy = qy q * qy q; zz = qz q * qz q;
          xy = qx q * qy q; xz = qx q * qz q; yz = qy q * qz q;
          wx = qw q * qx q; wy = qw q * qy q; wz = qw q * qz q;
          r00 = (1 - 2 * (yy + zz)) * scale;
          r01 = 2 * (xy - wz) * scale;
          r02 = 2 * (xz + wy) * scale;
          r10 = 2 * (xy + wz) * scale;
          r11 = (1 - 2 * (xx + zz)) * scale;
          r12 = 2 * (yz - wx) * scale;
          r20 = 2 * (xz - wy) * scale;
          r21 = 2 * (yz + wx) * scale;
          r22 = (1 - 2 * (xx + yy)) * scale
      in [r00, r10, r20, 0,
          r01, r11, r21, 0,
          r02, r12, r22, 0,
          vx (l_position leaf), vy (l_position leaf), vz (l_position leaf), 1])"

definition leafInstance_step ::
  "LeafPoint list \<Rightarrow> LeafInstanceConfig \<Rightarrow> nat
     \<Rightarrow> real list \<times> real list \<times> RandomGenerator \<Rightarrow> real list \<times> real list \<times> RandomGenerator" where
  "leafInstance_step lvs cfg i = (\<lambda>(ms, cs, g).
     let leaf = lvs ! i;
         (d1, g1) = random g;
         (d2, g2) = random g1;
         (d3, g3) = random g2;
         (d4, g4) = random g3;
         (d5, g5) = random g4;
         (d6, g6) = random g5;
         (d7, g7) = random g6
     in (writeFrom (i * 16) (instanceMatrix cfg leaf d1 d2 d3 d4) ms,
         writeFrom (i * 3) (instanceColor cfg d5 d6 d7) cs,
         g7))"

definition buildLeafInstances :: "LeafPoint list \<Rightarrow> LeafInstanceConfig \<Rightarrow> LeafInstanceData" where
  "buildLeafInstances lvs cfg =
     (let n = length lvs
      in if n = 0 then \<lparr>matrices = [], colors = [], count = 0\<rparr>
         else
           let rng = createRandom (leaf_seed cfg);
               (ms, cs, g) = fold (leafInstance_step lvs cfg) [0..<n]
                               (replicate (n * 16) 0, replicate (n * 3) 0, rng)
           in \<lparr>matrices = ms, colors = cs, count = n\<rparr>)"

section \<open>tree/TreeBuilder.ts\<close>

record TreeConfig =
  lsystem :: LSystem
  iterations :: nat
  seed :: string
  turtleConfig :: TurtleConfig
  branchConfig :: BranchGeometryConfig
  leafShapeConfig :: LeafShapeConfig
  leafInstanceConfig :: LeafInstanceConfig

record TreeStats =
  triangleCount :: real
  segmentCount :: nat
  leafCount :: nat
  symbolCount :: nat

text \<open>
  The Three.js objects of a \<open>TreeResult\<close> are wrappers of the buffers handed to them: the
  branch mesh is its geometry data, the leaf mesh (absent without leaves) the leaf shape
  with the instance data.
\<close>

record TreeResult =
  branchMesh :: GeometryData
  leafMesh :: "(GeometryData \<times> LeafInstanceData) option"
  stats :: TreeStats

definition buildTree :: "TreeConfig \<Rightarrow> error + TreeResult" where
  "buildTree cfg =
     (case generateSentence (lsystem cfg) (iterations cfg) (seed cfg) of
        Inl e \<Rightarrow> Inl e
      | Inr sentence \<Rightarrow>
     (case interpretSentence sentence (turtleConfig cfg) of
        Inl e \<Rightarrow> Inl e
      | Inr skeleton \<Rightarrow>
     (case buildBranchGeometry skeleton (branchConfig cfg) of
        Inl e \<Rightarrow> Inl e
      | Inr branchGeometryData \<Rightarrow>
          let branchTriangleCount = real (length (indices branchGeometryData)) / 3;
              leafPart =
                (if length (leaves skeleton) > 0 then
                   Some (createLeafShape (leafShapeConfig cfg),
                         buildLeafInstances (leaves skeleton) (leafInstanceConfig cfg))
                 else None);
              leafTriangleCount =
                (case leafPart of
                   None \<Rightarrow> 0
                 | Some (leafShapeData, leafInstanceData) \<Rightarrow>
                     (real (length (indices leafShapeData)) / 3) * real (count leafInstanceData))
          in Inr \<lparr>branchMesh = branchGeometryData,
                   leafMesh = leafPart,
                   stats = \<lparr>triangleCount = branchTriangleCount + leafTriangleCount,
                             segmentCount = length (segments skeleton),
                             leafCount = length (leaves skeleton),
                             symbolCount = length sentence\<rparr>\<rparr>)))"

definition defaultTreeConfig :: TreeConfig where
  "defaultTreeConfig =
     \<lparr>lsystem =
        \<lparr>axiom = ''X'',
         rules = [\<lparr>match = ''X'', odds = 1, produce = Literal ''F[+X][-X]FL''\<rparr>,
                  \<lparr>match = ''F'', odds = 1, produce = Literal ''FF''\<rparr>],
         config = \<lparr>baseLength = 0.5, baseRadius = 0.1, lengthFalloff = 0.85,
                   radiusFalloff = 0.7, branchAngle = 25, variability = 0.15\<rparr>\<rparr>,
      iterations = 4,
      seed = ''default-tree'',
      turtleConfig = \<lparr>t_baseRadius = 0.1, t_radiusFalloff = 0.7,
                       upVector = \<lparr>vx = 0, vy = 1, vz = 0\<rparr>,
                       forwardVector = \<lparr>vx = 0, vy = 1, vz = 0\<rparr>\<rparr>,
      branchConfig = \<lparr>radialSegments = 8, textureRepeatY = 2\<rparr>,
      leafShapeConfig = \<lparr>width = 0.15, shape_length = 0.25, curvature = 0.1,
                          shape_segments = 2\<rparr>,
      leafInstanceConfig =
        \<lparr>baseColor = \<lparr>cr = 0.13, cg = 0.55, cb = 0.13\<rparr>,
         colorVariation = 0.1, sizeVariation = 0.2, rotationScatter = 0.3,
         leaf_seed = ''leaves''\<rparr>\<rparr>"

section \<open>Notions used in the statements and proofs\<close>

text \<open>The cumulative odds of the first \<open>i + 1\<close> rules of a candidate list.\<close>

definition cumulativeOdds :: "Rule list \<Rightarrow> nat \<Rightarrow> real" where
  "cumulativeOdds rs i = sum_list (map odds (take (Suc i) rs))"

text \<open>The rule \<open>F \<rightarrow> FF\<close> with odds 1.\<close>

definition ruleFF :: Rule where
  "ruleFF = \<lparr>match = ''F'', odds = 1, produce = Literal ''FF''\<rparr>"

text \<open>
  Two states of the generator: the next draw of \<open>zeroDraw\<close> is 0, that of \<open>topDraw\<close> is
  the largest value a draw can have, \<open>(2^32 - 1) / 2^32\<close>.
\<close>

definition zeroDraw :: RandomGenerator where
  "zeroDraw = \<lparr>sfc_a = 0, sfc_b = 0, sfc_c = 0, sfc_d = 4294967295\<rparr>"


text \<open>The number of segments that start at node \<open>k\<close>.\<close>

definition outgoingCount :: "SkeletonSegment list \<Rightarrow> nat \<Rightarrow> nat" where
  "outgoingCount segs k = length (filter (\<lambda>s. startNodeId s = k) segs)"

text \<open>\<open>childCounts.get(k) ?? 0\<close>.\<close>

definition childCount :: "(nat \<times> nat) list \<Rightarrow> nat \<Rightarrow> nat" where
  "childCount cc k = (case map_of cc k of None \<Rightarrow> 0 | Some c \<Rightarrow> c)"

text \<open>
  The invariant of the loop of \<open>interpretSentence\<close>: the node ids are \<open>0, 1, \<dots>\<close> in
  creation order, the cursor and every saved state stand on a node that exists, the
  child counter of a node is the number of segments that start at it, and no flag is
  set before the loop ends.
\<close>

definition interp_inv :: "Interp \<Rightarrow> bool" where
  "interp_inv it \<longleftrightarrow>
     map n_id (i_nodes it) = [0..<nextNodeId it]
     \<and> currentNodeId (state it) < nextNodeId it
     \<and> (\<forall>s \<in> set (stateStack it). currentNodeId s < nextNodeId it)
     \<and> distinct (map fst (childCounts it))
     \<and> (\<forall>k. childCount (childCounts it) k = outgoingCount (i_segments it) k)
     \<and> (\<forall>n \<in> set (i_nodes it). \<not> isTerminal n \<and> \<not> isBranchPoint n)"

text \<open>Vertex \<open>i\<close> of a flat buffer of coordinates \<open>x, y, z, x, y, z, \<dots>\<close>.\<close>

definition vertexAt :: "real list \<Rightarrow> nat \<Rightarrow> Vec3" where
  "vertexAt buf i = \<lparr>vx = buf ! (3 * i), vy = buf ! (3 * i + 1), vz = buf ! (3 * i + 2)\<rparr>"

text \<open>The rotated local position of vertex \<open>i\<close> in the loop of \<open>generateRing\<close>.\<close>

definition ringRotated :: "Quat \<Rightarrow> real \<Rightarrow> nat \<Rightarrow> nat \<Rightarrow> Vec3" where
  "ringRotated ori rad segs i =
     rotateVec3ByQuat (vec3 (cos ((real i * 2 * pi) / real segs) * rad) 0
                            (sin ((real i * 2 * pi) / real segs) * rad)) ori"

text \<open>The three coordinates that \<open>push(v.x, v.y, v.z)\<close> appends.\<close>

definition coords :: "Vec3 \<Rightarrow> real list" where
  "coords v = [vx v, vy v, vz v]"

text \<open>The squared Euclidean length.\<close>

definition normSq :: "Vec3 \<Rightarrow> real" where
  "normSq v = vx v * vx v + vy v * vy v + vz v * vz v"

text \<open>
  The length relations of a \<open>GeometryData\<close>: \<open>normals.length == positions.length\<close>,
  \<open>uvs.length == positions.length / 3 * 2\<close> and \<open>indices.length % 3 == 0\<close>.
\<close>

definition bufferShape :: "GeometryData \<Rightarrow> bool" where
  "bufferShape g \<longleftrightarrow>
     length (normals g) = length (positions g)
     \<and> real (length (uvs g)) = real (length (positions g)) / 3 * 2
     \<and> length (indices g) mod 3 = 0"

text \<open>
  The invariant of the data model that both node ids of every segment are ids of nodes
  of the same skeleton.
\<close>

definition segmentsResolved :: "Skeleton \<Rightarrow> bool" where
  "segmentsResolved sk \<longleftrightarrow>
     list_all (\<lambda>s. startNodeId s \<in> set (map n_id (nodes sk))
                   \<and> endNodeId s \<in> set (map n_id (nodes sk))) (segments sk)"

text \<open>The accumulators of \<open>buildBranchGeometry\<close> after \<open>k\<close> segments with \<open>n\<close> radial segments.\<close>

definition accShape :: "nat \<Rightarrow> nat \<Rightarrow> BranchAcc \<Rightarrow> bool" where
  "accShape n k acc \<longleftrightarrow>
     length (allPositions acc) = 6 * n * k
     \<and> length (allNormals acc) = 6 * n * k
     \<and> length (allUvs acc) = 4 * n * k
     \<and> length (allIndices acc) = 6 * n * k"

text \<open>Both ends of every segment created so far are nodes created so far.\<close>

definition segs_inv :: "Interp \<Rightarrow> bool" where
  "segs_inv it \<longleftrightarrow>
     list_all (\<lambda>s. startNodeId s < nextNodeId it \<and> endNodeId s < nextNodeId it) (i_segments it)"

text \<open>
  The matrix and the colour of leaf instance \<open>i\<close>, computed from the draws \<open>7 i, \<dots>, 7 i + 6\<close>
  of the generator \<open>g\<close>.
\<close>

definition matrixOf :: "LeafInstanceConfig \<Rightarrow> LeafPoint list \<Rightarrow> RandomGenerator \<Rightarrow> nat \<Rightarrow> real list" where
  "matrixOf cfg lvs g i =
     instanceMatrix cfg (lvs ! i) (draw g (7 * i)) (draw g (7 * i + 1)) (draw g (7 * i + 2))
       (draw g (7 * i + 3))"

definition colorOf :: "LeafInstanceConfig \<Rightarrow> RandomGenerator \<Rightarrow> nat \<Rightarrow> real list" where
  "colorOf cfg g i = instanceColor cfg (draw g (7 * i + 4)) (draw g (7 * i + 5)) (draw g (7 * i + 6))"

section \<open>The random generator\<close>




lemma zeroDraw_random: "fst (random zeroDraw) = 0"
  by (simp add: zeroDraw_def random_def nextRandom_def)



section \<open>\<open>randomInt\<close>\<close>











section \<open>\<open>selectRule\<close>\<close>

lemma foldl_odds: "foldl (\<lambda>s rule. s + odds rule) a rs = a + sum_list (map odds rs)"
  by (induction rs arbitrary: a) simp_all

lemma selectRule_loop_Some:
  "selectRule_loop rv acc rs = Some rule \<longleftrightarrow>
     (\<exists>i<length rs. rule = rs ! i \<and> rv < acc + cumulativeOdds rs i
        \<and> (\<forall>j<i. \<not> rv < acc + cumulativeOdds rs j))"
proof (induction rs arbitrary: acc)
  case Nil
  then show ?case by simp
next
  case (Cons r rs)
  show ?case
  proof (cases "rv < acc + odds r")
    case True
    have "(\<exists>i<length (r # rs). rule = (r # rs) ! i \<and> rv < acc + cumulativeOdds (r # rs) i
        \<and> (\<forall>j<i. \<not> rv < acc + cumulativeOdds (r # rs) j)) \<longleftrightarrow> rule = r"
    proof
      assume "\<exists>i<length (r # rs). rule = (r # rs) ! i \<and> rv < acc + cumulativeOdds (r # rs) i
        \<and> (\<forall>j<i. \<not> rv < acc + cumulativeOdds (r # rs) j)"
      then obtain i where i: "rule = (r # rs) ! i" "\<forall>j<i. \<not> rv < acc + cumulativeOdds (r # rs) j"
        by blast
      have "i = 0"
      proof (rule ccontr)
        assume "i \<noteq> 0"
        then have "\<not> rv < acc + cumulativeOdds (r # rs) 0" using i(2) by simp
        then show False using True by (simp add: cumulativeOdds_def)
      qed
      then show "rule = r" using i(1) by simp
    next
      assume "rule = r"
      then show "\<exists>i<length (r # rs). rule = (r # rs) ! i \<and> rv < acc + cumulativeOdds (r # rs) i
        \<and> (\<forall>j<i. \<not> rv < acc + cumulativeOdds (r # rs) j)"
        using True by (intro exI [of _ 0]) (simp add: cumulativeOdds_def)
    qed
    then show ?thesis using True by (auto simp: Let_def)
  next
    case False
    have shift: "acc + cumulativeOdds (r # rs) (Suc j) = (acc + odds r) + cumulativeOdds rs j" for j
      by (simp add: cumulativeOdds_def)
    have zero: "acc + cumulativeOdds (r # rs) 0 = acc + odds r"
      by (simp add: cumulativeOdds_def)
    have "(\<exists>i<length (r # rs). rule = (r # rs) ! i \<and> rv < acc + cumulativeOdds (r # rs) i
        \<and> (\<forall>j<i. \<not> rv < acc + cumulativeOdds (r # rs) j))
      \<longleftrightarrow> (\<exists>i<length rs. rule = rs ! i \<and> rv < (acc + odds r) + cumulativeOdds rs i
        \<and> (\<forall>j<i. \<not> rv < (acc + odds r) + cumulativeOdds rs j))" (is "?L \<longleftrightarrow> ?R")
    proof
      assume ?L
      then obtain i where i: "i < length (r # rs)" "rule = (r # rs) ! i"
        "rv < acc + cumulativeOdds (r # rs) i" "\<forall>j<i. \<not> rv < acc + cumulativeOdds (r # rs) j"
        by blast
      from i(3) False zero have "i \<noteq> 0" by (cases i) auto
      then obtain k where k: "i = Suc k" by (cases i) auto
      have "\<forall>j<k. \<not> rv < (acc + odds r) + cumulativeOdds rs j"
      proof (intro allI impI)
        fix j assume "j < k"
        then have "Suc j < i" using k by simp
        with i(4) have "\<not> rv < acc + cumulativeOdds (r # rs) (Suc j)" by blast
        then show "\<not> rv < (acc + odds r) + cumulativeOdds rs j" using shift [of j] by simp
      qed
      moreover have "rv < (acc + odds r) + cumulativeOdds rs k"
        using i(3) k shift [of k] by simp
      ultimately show ?R using i(1,2) k by auto
    next
      assume ?R
      then obtain k where k: "k < length rs" "rule = rs ! k"
        "rv < (acc + odds r) + cumulativeOdds rs k"
        "\<forall>j<k. \<not> rv < (acc + odds r) + cumulativeOdds rs j"
        by blast
      have "\<forall>j<Suc k. \<not> rv < acc + cumulativeOdds (r # rs) j"
      proof (intro allI impI)
        fix j assume j: "j < Suc k"
        show "\<not> rv < acc + cumulativeOdds (r # rs) j"
        proof (cases j)
          case 0
          then show ?thesis using False zero by simp
        next
          case (Suc m)
          then have "m < k" using j by simp
          with k(4) have "\<not> rv < (acc + odds r) + cumulativeOdds rs m" by blast
          then show ?thesis using Suc shift [of m] by simp
        qed
      qed
      moreover have "rv < acc + cumulativeOdds (r # rs) (Suc k)"
        using k(3) shift [of k] by simp
      ultimately show ?L using k(1,2) by (intro exI [of _ "Suc k"]) simp
    qed
    then show ?thesis using False Cons.IH [of "acc + odds r"] by (simp add: Let_def)
  qed
qed

lemma selectRule_loop_None:
  "selectRule_loop rv acc rs = None \<longleftrightarrow> (\<forall>i<length rs. \<not> rv < acc + cumulativeOdds rs i)"
proof -
  have "selectRule_loop rv acc rs = None \<longleftrightarrow> (\<forall>rule. selectRule_loop rv acc rs \<noteq> Some rule)"
    by auto
  also have "\<dots> \<longleftrightarrow> (\<forall>i<length rs. \<not> (rv < acc + cumulativeOdds rs i
        \<and> (\<forall>j<i. \<not> rv < acc + cumulativeOdds rs j)))"
    unfolding selectRule_loop_Some by blast
  also have "\<dots> \<longleftrightarrow> (\<forall>i<length rs. \<not> rv < acc + cumulativeOdds rs i)"
  proof
    assume H: "\<forall>i<length rs. \<not> (rv < acc + cumulativeOdds rs i
        \<and> (\<forall>j<i. \<not> rv < acc + cumulativeOdds rs j))"
    show "\<forall>i<length rs. \<not> rv < acc + cumulativeOdds rs i"
    proof (intro allI impI)
      fix i assume "i < length rs"
      then show "\<not> rv < acc + cumulativeOdds rs i"
      proof (induction i rule: less_induct)
        case (less i)
        then have "\<forall>j<i. \<not> rv < acc + cumulativeOdds rs j" by simp
        with H less.prems show ?case by blast
      qed
    qed
  next
    assume "\<forall>i<length rs. \<not> rv < acc + cumulativeOdds rs i"
    then show "\<forall>i<length rs. \<not> (rv < acc + cumulativeOdds rs i
        \<and> (\<forall>j<i. \<not> rv < acc + cumulativeOdds rs j))" by blast
  qed
  finally show ?thesis .
qed

text \<open>
  C3: given exactly one rule, \<open>selectRule\<close> returns it and leaves the generator as it
  was.  Otherwise the generator is advanced by exactly one draw \<open>r\<close>, the threshold is
  \<open>r\<close> times the sum of the odds, and the result is the first rule, in list order,
  whose cumulative odds exceed the threshold; when no cumulative odds exceed it, the
  result is the last element of the list (\<open>rules[rules.length - 1]\<close>).
\<close>

theorem selectRule_spec:
  "selectRule [rule] g = (Some rule, g)
   \<and> (length rs \<noteq> 1 \<longrightarrow>
        snd (selectRule rs g) = snd (random g)
        \<and> (\<forall>i<length rs.
              fst (random g) * sum_list (map odds rs) < cumulativeOdds rs i
              \<and> (\<forall>j<i. \<not> fst (random g) * sum_list (map odds rs) < cumulativeOdds rs j)
              \<longrightarrow> fst (selectRule rs g) = Some (rs ! i))
        \<and> ((\<forall>i<length rs. \<not> fst (random g) * sum_list (map odds rs) < cumulativeOdds rs i)
              \<longrightarrow> fst (selectRule rs g) = lastRule rs))"
proof -
  define th where "th = fst (random g) * sum_list (map odds rs)"
  have one: "selectRule [rule] g = (Some rule, g)"
    by (simp add: selectRule_def)
  have many: "snd (selectRule rs g) = snd (random g)
        \<and> (\<forall>i<length rs. th < cumulativeOdds rs i \<and> (\<forall>j<i. \<not> th < cumulativeOdds rs j)
              \<longrightarrow> fst (selectRule rs g) = Some (rs ! i))
        \<and> ((\<forall>i<length rs. \<not> th < cumulativeOdds rs i) \<longrightarrow> fst (selectRule rs g) = lastRule rs)"
    if ne: "length rs \<noteq> 1"
  proof -
    have sel: "selectRule rs g =
        (case selectRule_loop th 0 rs of Some rule \<Rightarrow> (Some rule, snd (random g))
         | None \<Rightarrow> (lastRule rs, snd (random g)))"
      using ne by (simp add: selectRule_def foldl_odds th_def Let_def case_prod_beta)
    have a: "snd (selectRule rs g) = snd (random g)"
      unfolding sel by (simp split: option.splits)
    have b: "fst (selectRule rs g) = Some (rs ! i)"
      if "i < length rs" "th < cumulativeOdds rs i" "\<forall>j<i. \<not> th < cumulativeOdds rs j" for i
    proof -
      have "selectRule_loop th 0 rs = Some (rs ! i)"
        unfolding selectRule_loop_Some using that by auto
      then show ?thesis unfolding sel by simp
    qed
    have c: "fst (selectRule rs g) = lastRule rs" if "\<forall>i<length rs. \<not> th < cumulativeOdds rs i"
    proof -
      have "selectRule_loop th 0 rs = None"
        unfolding selectRule_loop_None using that by simp
      then show ?thesis unfolding sel by simp
    qed
    from a b c show ?thesis by blast
  qed
  from one many show ?thesis unfolding th_def by blast
qed

text \<open>
  Two rules with odds 0.9 and 0.1 at the draw 0: the first is selected.  Two rules with
  odds 0: no cumulative odds exceed the threshold, the last is returned.
\<close>

theorem selectRule_spec_witness:
  "length [\<lparr>match = ''F'', odds = 9 / 10, produce = Literal ''F[+F]''\<rparr>,
           \<lparr>match = ''F'', odds = 1 / 10, produce = Literal ''F[-F]''\<rparr>] \<noteq> 1
   \<and> fst (selectRule [\<lparr>match = ''F'', odds = 9 / 10, produce = Literal ''F[+F]''\<rparr>,
                       \<lparr>match = ''F'', odds = 1 / 10, produce = Literal ''F[-F]''\<rparr>] zeroDraw)
       = Some \<lparr>match = ''F'', odds = 9 / 10, produce = Literal ''F[+F]''\<rparr>
   \<and> snd (selectRule [\<lparr>match = ''F'', odds = 9 / 10, produce = Literal ''F[+F]''\<rparr>,
                       \<lparr>match = ''F'', odds = 1 / 10, produce = Literal ''F[-F]''\<rparr>] zeroDraw)
       = snd (random zeroDraw)
   \<and> fst (selectRule [\<lparr>match = ''F'', odds = 0, produce = Literal ''F[+F]''\<rparr>,
                       \<lparr>match = ''F'', odds = 0, produce = Literal ''F[-F]''\<rparr>] zeroDraw)
       = Some \<lparr>match = ''F'', odds = 0, produce = Literal ''F[-F]''\<rparr>"
proof -
  define rA :: Rule where "rA = \<lparr>match = ''F'', odds = 9 / 10, produce = Literal ''F[+F]''\<rparr>"
  define rB :: Rule where "rB = \<lparr>match = ''F'', odds = 1 / 10, produce = Literal ''F[-F]''\<rparr>"
  define zA :: Rule where "zA = \<lparr>match = ''F'', odds = 0, produce = Literal ''F[+F]''\<rparr>"
  define zB :: Rule where "zB = \<lparr>match = ''F'', odds = 0, produce = Literal ''F[-F]''\<rparr>"
  have len: "length [rA, rB] \<noteq> 1" "length [zA, zB] \<noteq> 1" by simp_all
  from selectRule_spec [of rA zeroDraw "[rA, rB]"] len(1)
  have st: "snd (selectRule [rA, rB] zeroDraw) = snd (random zeroDraw)"
    and first: "\<forall>i<length [rA, rB].
              fst (random zeroDraw) * sum_list (map odds [rA, rB]) < cumulativeOdds [rA, rB] i
              \<and> (\<forall>j<i. \<not> fst (random zeroDraw) * sum_list (map odds [rA, rB]) < cumulativeOdds [rA, rB] j)
              \<longrightarrow> fst (selectRule [rA, rB] zeroDraw) = Some ([rA, rB] ! i)"
    by blast+
  have "fst (selectRule [rA, rB] zeroDraw) = Some ([rA, rB] ! 0)"
    by (rule first [rule_format, of 0]) (simp_all add: zeroDraw_random cumulativeOdds_def rA_def)
  then have a: "fst (selectRule [rA, rB] zeroDraw) = Some rA" by simp
  from selectRule_spec [of zA zeroDraw "[zA, zB]"] len(2)
  have last: "(\<forall>i<length [zA, zB].
                 \<not> fst (random zeroDraw) * sum_list (map odds [zA, zB]) < cumulativeOdds [zA, zB] i)
              \<longrightarrow> fst (selectRule [zA, zB] zeroDraw) = lastRule [zA, zB]"
    by blast
  have none: "\<forall>i<length [zA, zB].
                 \<not> fst (random zeroDraw) * sum_list (map odds [zA, zB]) < cumulativeOdds [zA, zB] i"
  proof (intro allI impI)
    fix i assume "i < length [zA, zB]"
    then have "i = 0 \<or> i = 1" by auto
    then show "\<not> fst (random zeroDraw) * sum_list (map odds [zA, zB]) < cumulativeOdds [zA, zB] i"
      by (auto simp: zeroDraw_random cumulativeOdds_def zA_def zB_def)
  qed
  have "fst (selectRule [zA, zB] zeroDraw) = lastRule [zA, zB]"
    using last none by (rule mp)
  then have b: "fst (selectRule [zA, zB] zeroDraw) = Some zB" by (simp add: lastRule_def)
  from len(1) a st b show ?thesis unfolding rA_def rB_def zA_def zB_def by blast
qed

section \<open>\<open>createSymbol\<close>\<close>



section \<open>The rule \<open>F \<rightarrow> FF\<close>\<close>

lemma createSymbol_symbol: "symbol (fst (createSymbol c g cfg d)) = c"
  by (simp add: createSymbol_def Let_def case_prod_beta)

lemma parseProduction_loop_symbols:
  "map symbol (fst (parseProduction_loop p acc g cfg d)) = map symbol acc @ map (\<lambda>ch. [ch]) p"
proof (induction p arbitrary: acc g)
  case Nil
  then show ?case by simp
next
  case (Cons ch p)
  show ?case
    by (simp add: case_prod_beta Cons.IH createSymbol_symbol)
qed

lemma parseProduction_symbols:
  "map symbol (fst (parseProduction p g cfg d)) = map (\<lambda>ch. [ch]) p"
  by (simp add: parseProduction_def parseProduction_loop_symbols)

lemma applyRules_loop_FF:
  assumes "map symbol sentence = replicate k ''F''"
  shows "\<exists>res g'. applyRules_loop sentence [ruleFF] cfg result d g = Inr (res, g')
           \<and> map symbol res = map symbol result @ replicate (2 * k) ''F''"
  using assms
proof (induction sentence arbitrary: k result g)
  case Nil
  then show ?case by simp
next
  case (Cons sy sentence)
  from Cons.prems obtain k' where k: "k = Suc k'" "symbol sy = ''F''"
    "map symbol sentence = replicate k' ''F''"
    by (cases k) auto
  define new where "new = parseProduction ''FF'' g cfg d"
  have new_sym: "map symbol (fst new) = [''F'', ''F'']"
    by (simp add: new_def parseProduction_symbols)
  have step: "applyRules_loop (sy # sentence) [ruleFF] cfg result d g
      = applyRules_loop sentence [ruleFF] cfg (result @ fst new) d (snd new)"
    using k(2) by (simp add: ruleFF_def selectRule_def new_def case_prod_beta)
  from Cons.IH [OF k(3), of "result @ fst new" "snd new"]
  obtain res g' where r: "applyRules_loop sentence [ruleFF] cfg (result @ fst new) d (snd new) = Inr (res, g')"
    "map symbol res = map symbol (result @ fst new) @ replicate (2 * k') ''F''" by blast
  have "map symbol res = map symbol result @ replicate (2 * k) ''F''"
    using r(2) new_sym k(1) by simp
  with r(1) step show ?case by simp
qed

lemma generateSentence_loop_FF:
  assumes "map symbol sentence = replicate k ''F''"
  shows "\<exists>res g'. generateSentence_loop n \<lparr>axiom = ax, rules = [ruleFF], config = cfg\<rparr> sentence g
             = Inr (res, g')
           \<and> map symbol res = replicate (2 ^ n * k) ''F''"
  using assms
proof (induction n arbitrary: k sentence g)
  case 0
  then show ?case by simp
next
  case (Suc n)
  from applyRules_loop_FF [OF Suc.prems, of cfg "[]" 0 g]
  obtain res g' where r: "applyRules sentence [ruleFF] g cfg = Inr (res, g')"
    "map symbol res = replicate (2 * k) ''F''"
    by (auto simp: applyRules_def)
  from Suc.IH [OF r(2), of g']
  obtain res' g'' where r': "generateSentence_loop n \<lparr>axiom = ax, rules = [ruleFF], config = cfg\<rparr> res g'
      = Inr (res', g'')" "map symbol res' = replicate (2 ^ n * (2 * k)) ''F''" by blast
  have "(2::nat) ^ n * (2 * k) = 2 ^ Suc n * k" by simp
  with r r' show ?case by simp
qed

lemma generateSentence_FF_n:
  "\<exists>s. generateSentence \<lparr>axiom = ''F'',
                           rules = [\<lparr>match = ''F'', odds = 1, produce = Literal ''FF''\<rparr>],
                           config = cfg\<rparr> n seed0 = Inr s
        \<and> length s = 2 ^ n \<and> map symbol s = replicate (2 ^ n) ''F''"
proof -
  define g where "g = createRandom seed0"
  define p where "p = parseProduction ''F'' g cfg 0"
  have ps: "map symbol (fst p) = replicate 1 ''F''"
    by (simp add: p_def parseProduction_symbols)
  from generateSentence_loop_FF [OF ps, of n "''F''" cfg "snd p"]
  obtain res g' where r: "generateSentence_loop n \<lparr>axiom = ''F'', rules = [ruleFF], config = cfg\<rparr>
       (fst p) (snd p) = Inr (res, g')" "map symbol res = replicate (2 ^ n * 1) ''F''" by blast
  have "generateSentence \<lparr>axiom = ''F'', rules = [ruleFF], config = cfg\<rparr> n seed0 = Inr res"
    using r(1) by (simp add: generateSentence_def g_def p_def case_prod_beta)
  moreover have "length res = 2 ^ n"
    using arg_cong [OF r(2), of length] by simp
  ultimately show ?thesis using r(2) by (auto simp: ruleFF_def)
qed

text \<open>
  C8: with the axiom \<open>F\<close> and the single rule \<open>F \<rightarrow> FF\<close> (odds 1), for every seed and
  every configuration, \<open>generateSentence\<close> returns after \<open>n\<close> iterations a sentence of
  \<open>2^n\<close> symbols, all of them \<open>F\<close>; after 3 iterations these are 8.
\<close>

theorem generateSentence_FF:
  "(\<exists>s. generateSentence \<lparr>axiom = ''F'',
                            rules = [\<lparr>match = ''F'', odds = 1, produce = Literal ''FF''\<rparr>],
                            config = cfg\<rparr> 3 seed0 = Inr s
         \<and> length s = 8 \<and> map symbol s = replicate 8 ''F'')
   \<and> (\<exists>s. generateSentence \<lparr>axiom = ''F'',
                              rules = [\<lparr>match = ''F'', odds = 1, produce = Literal ''FF''\<rparr>],
                              config = cfg\<rparr> n seed0 = Inr s
           \<and> length s = 2 ^ n \<and> map symbol s = replicate (2 ^ n) ''F'')"
  using generateSentence_FF_n [of cfg 3 seed0] generateSentence_FF_n [of cfg n seed0]
  by simp

section \<open>The turtle interpreter\<close>

text \<open>
  C10: the empty sentence yields the root node alone (id 0, no parent, depth 0, at the
  origin, identity orientation, radius \<open>baseRadius\<close>), marked terminal and not a branch
  point, with no segment and no leaf.
\<close>

theorem interpretSentence_empty:
  "interpretSentence [] cfg =
     Inr \<lparr>nodes = [\<lparr>n_id = 0, n_position = \<lparr>vx = 0, vy = 0, vz = 0\<rparr>,
                    n_orientation = \<lparr>qx = 0, qy = 0, qz = 0, qw = 1\<rparr>,
                    n_radius = t_baseRadius cfg, parentId = None, n_depth = 0,
                    isTerminal = True, isBranchPoint = False\<rparr>],
          segments = [], leaves = []\<rparr>"
  by (simp add: interpretSentence_def initialInterp_def createNode_def markTerminals_def
      vec3_def identityQuat_def Let_def)

text \<open>
  C9: with an empty state stack, \<open>]\<close> is not an error and changes nothing: the cursor
  state, the stack, and the nodes, segments and leaves gathered so far stay as they
  were.
\<close>

theorem pop_on_empty_stack:
  "stateStack it = [] \<Longrightarrow> interpretSymbol cfg \<lparr>symbol = '']'', params = ps\<rparr> it = Inr it"
  by (simp add: interpretSymbol_def Let_def)

text \<open>The state before the first symbol has an empty stack.\<close>

theorem pop_on_empty_stack_witness:
  "stateStack (initialInterp (turtleConfig defaultTreeConfig)) = []
   \<and> interpretSymbol (turtleConfig defaultTreeConfig) \<lparr>symbol = '']'', params = noParams\<rparr>
        (initialInterp (turtleConfig defaultTreeConfig))
      = Inr (initialInterp (turtleConfig defaultTreeConfig))"
proof -
  have h: "stateStack (initialInterp (turtleConfig defaultTreeConfig)) = []"
    by (simp add: initialInterp_def Let_def)
  from h pop_on_empty_stack [OF h] show ?thesis by blast
qed

lemma find_append_list:
  "find P (xs @ ys) = (case find P xs of None \<Rightarrow> find P ys | Some x \<Rightarrow> Some x)"
  by (induction xs) simp_all

lemma find_node_by_id:
  assumes "map n_id ns = [0..<m]" and "k < m"
  shows "\<exists>n. find (\<lambda>n. n_id n = k) ns = Some n \<and> n_id n = k"
proof -
  have "k \<in> set (map n_id ns)" using assms by simp
  then have "\<exists>x. x \<in> set ns \<and> n_id x = k" by auto
  then have "find (\<lambda>n. n_id n = k) ns \<noteq> None" by (simp add: find_None_iff)
  then obtain n where n: "find (\<lambda>n. n_id n = k) ns = Some n" by auto
  then have "n_id n = k" by (auto simp: find_Some_iff)
  with n show ?thesis by simp
qed

lemma outgoingCount_snoc:
  "outgoingCount (segs @ [s]) k = outgoingCount segs k + (if startNodeId s = k then 1 else 0)"
  by (simp add: outgoingCount_def)

lemma childCount_update:
  "childCount (AList.update k v cc) k' = (if k' = k then v else childCount cc k')"
  by (simp add: childCount_def update_conv')

lemma rotateState_inv: "interp_inv it \<Longrightarrow> interp_inv (rotateState axis a it)"
  by (simp add: interp_inv_def rotateState_def Let_def)

lemma forward_inv:
  assumes inv: "interp_inv it" and F: "symbol sy = ''F''"
  shows "\<exists>it'. interpretSymbol cfg sy it = Inr it' \<and> interp_inv it'"
proof -
  define st where "st = state it"
  define len where "len = (case p_length (params sy) of None \<Rightarrow> 1 | Some l \<Rightarrow> l)"
  define newPosition where
    "newPosition = addVec3 (position st) (scaleVec3 (getForward (orientation st)) len)"
  define newRadius where "newRadius = t_baseRadius cfg * t_radiusFalloff cfg ^ depth st"
  define newNode where
    "newNode = createNode (nextNodeId it) newPosition (orientation st) newRadius
                 (Some (currentNodeId st)) (depth st)"
  from inv have ids: "map n_id (i_nodes it) = [0..<nextNodeId it]"
    and cur: "currentNodeId st < nextNodeId it"
    and stk: "\<forall>s \<in> set (stateStack it). currentNodeId s < nextNodeId it"
    and dis: "distinct (map fst (childCounts it))"
    and cnt: "\<forall>k. childCount (childCounts it) k = outgoingCount (i_segments it) k"
    and flg: "\<forall>n \<in> set (i_nodes it). \<not> isTerminal n \<and> \<not> isBranchPoint n"
    by (simp_all add: interp_inv_def st_def)
  from find_node_by_id [OF ids cur]
  obtain currentNode where cn: "find (\<lambda>n. n_id n = currentNodeId st) (i_nodes it) = Some currentNode"
    "n_id currentNode = currentNodeId st" by blast
  have fnd: "find (\<lambda>n. n_id n = currentNodeId st) (i_nodes it @ [newNode]) = Some currentNode"
    by (simp add: find_append_list cn(1))
  define it' where
    "it' = it\<lparr>i_nodes := i_nodes it @ [newNode],
              nextNodeId := nextNodeId it + 1,
              i_segments := i_segments it @ [createSegment currentNode newNode len],
              childCounts := AList.update (currentNodeId st)
                               (childCount (childCounts it) (currentNodeId st) + 1) (childCounts it),
              state := st\<lparr>position := newPosition, radius := newRadius,
                           currentNodeId := n_id newNode\<rparr>\<rparr>"
  have step: "interpretSymbol cfg sy it = Inr it'"
    using F fnd
    by (simp add: interpretSymbol_def Let_def st_def [symmetric] len_def [symmetric]
        newPosition_def [symmetric] newRadius_def [symmetric] newNode_def [symmetric]
        it'_def childCount_def)
  have nid: "n_id newNode = nextNodeId it" by (simp add: newNode_def createNode_def)
  have nflags: "\<not> isTerminal newNode \<and> \<not> isBranchPoint newNode"
    by (simp add: newNode_def createNode_def)
  have sstart: "startNodeId (createSegment currentNode newNode len) = currentNodeId st"
    by (simp add: createSegment_def cn(2))
  have i1: "map n_id (i_nodes it') = [0..<nextNodeId it']"
    by (simp add: it'_def ids nid)
  have i2: "currentNodeId (state it') < nextNodeId it'"
    by (simp add: it'_def nid)
  have i3: "\<forall>s \<in> set (stateStack it'). currentNodeId s < nextNodeId it'"
    using stk by (auto simp: it'_def)
  have i4: "distinct (map fst (childCounts it'))"
    using dis by (simp add: it'_def distinct_update)
  have i5: "\<forall>k. childCount (childCounts it') k = outgoingCount (i_segments it') k"
    using cnt by (simp add: it'_def childCount_update outgoingCount_snoc sstart)
  have i6: "\<forall>n \<in> set (i_nodes it'). \<not> isTerminal n \<and> \<not> isBranchPoint n"
    using flg nflags by (auto simp: it'_def)
  from i1 i2 i3 i4 i5 i6 have "interp_inv it'" by (simp add: interp_inv_def)
  with step show ?thesis by blast
qed

lemma interpretSymbol_inv:
  assumes inv: "interp_inv it"
  shows "\<exists>it'. interpretSymbol cfg sy it = Inr it' \<and> interp_inv it'"
proof (cases "symbol sy = ''F''")
  case True
  then show ?thesis by (rule forward_inv [OF inv])
next
  case notF: False
  show ?thesis
  proof (cases "symbol sy = ''[''")
    case True
    have "interp_inv (it\<lparr>stateStack := cloneTurtleState (state it) # stateStack it,
                 state := (state it)\<lparr>depth := depth (state it) + 1\<rparr>\<rparr>)"
      using inv by (simp add: interp_inv_def cloneTurtleState_def)
    then show ?thesis using True by (simp add: interpretSymbol_def Let_def)
  next
    case notPush: False
    show ?thesis
    proof (cases "symbol sy = '']''")
      case True
      show ?thesis
      proof (cases "stateStack it")
        case Nil
        then show ?thesis using True inv by (simp add: interpretSymbol_def Let_def)
      next
        case (Cons saved rest)
        have "interp_inv (it\<lparr>stateStack := rest, state := saved\<rparr>)"
          using inv Cons by (simp add: interp_inv_def)
        then show ?thesis using True Cons by (simp add: interpretSymbol_def Let_def)
      qed
    next
      case notPop: False
      show ?thesis
      proof (cases "symbol sy = ''L''")
        case True
        have "interp_inv (it\<lparr>i_leaves := i_leaves it @ [lf]\<rparr>)" for lf
          using inv by (simp add: interp_inv_def)
        then show ?thesis using True by (simp add: interpretSymbol_def Let_def)
      next
        case False
        then show ?thesis
          using notF notPush notPop inv rotateState_inv [OF inv]
          by (simp add: interpretSymbol_def Let_def)
      qed
    qed
  qed
qed

lemma interpretSymbols_inv:
  "interp_inv it \<Longrightarrow> \<exists>it'. interpretSymbols cfg sentence it = Inr it' \<and> interp_inv it'"
proof (induction sentence arbitrary: it)
  case Nil
  then show ?case by simp
next
  case (Cons sy sentence)
  from interpretSymbol_inv [OF Cons.prems, of cfg sy]
  obtain it1 where s: "interpretSymbol cfg sy it = Inr it1" "interp_inv it1" by blast
  from Cons.IH [OF s(2)] s(1) show ?case by simp
qed

lemma initialInterp_inv: "interp_inv (initialInterp cfg)"
  by (simp add: interp_inv_def initialInterp_def createNode_def cloneTurtleState_def
      childCount_def outgoingCount_def Let_def)

lemma setBranchPoint_absent:
  "k \<notin> set (map n_id ns) \<Longrightarrow> setBranchPoint k ns = ns"
  by (induction ns) auto

lemma setBranchPoint_map:
  "distinct (map n_id ns) \<Longrightarrow>
   setBranchPoint k ns = map (\<lambda>n. if n_id n = k then n\<lparr>isBranchPoint := True\<rparr> else n) ns"
proof (induction ns)
  case Nil
  then show ?case by simp
next
  case (Cons n ns)
  show ?case
  proof (cases "n_id n = k")
    case True
    then have "k \<notin> set (map n_id ns)" using Cons.prems by auto
    then have "map (\<lambda>n. if n_id n = k then n\<lparr>isBranchPoint := True\<rparr> else n) ns = ns"
      by (induction ns) auto
    then show ?thesis using True by simp
  next
    case False
    then show ?thesis using Cons by simp
  qed
qed

lemma markBranchPoints_map:
  "distinct (map n_id ns) \<Longrightarrow>
   markBranchPoints es ns =
     map (\<lambda>n. if \<exists>c. (n_id n, c) \<in> set es \<and> 1 < c then n\<lparr>isBranchPoint := True\<rparr> else n) ns"
proof (induction es arbitrary: ns)
  case Nil
  then show ?case by simp
next
  case (Cons e es)
  obtain k c where e: "e = (k, c)" by (cases e)
  define g where "g = (\<lambda>n :: SkeletonNode. if n_id n = k \<and> 1 < c then n\<lparr>isBranchPoint := True\<rparr> else n)"
  have gid: "n_id (g n) = n_id n" for n by (simp add: g_def)
  have first: "(if 1 < c then setBranchPoint k ns else ns) = map g ns"
    using setBranchPoint_map [OF Cons.prems, of k] by (auto simp: g_def)
  have dis: "distinct (map n_id (map g ns))"
    using Cons.prems by (simp add: comp_def gid)
  have "markBranchPoints (e # es) ns = markBranchPoints es (map g ns)"
    using first by (simp only: e markBranchPoints.simps)
  also have "\<dots> = map (\<lambda>n. if \<exists>c. (n_id n, c) \<in> set es \<and> 1 < c
                             then n\<lparr>isBranchPoint := True\<rparr> else n) (map g ns)"
    by (rule Cons.IH [OF dis])
  also have "\<dots> = map (\<lambda>n. if \<exists>c'. (n_id n, c') \<in> set (e # es) \<and> 1 < c'
                             then n\<lparr>isBranchPoint := True\<rparr> else n) ns"
  proof -
    have pt: "(if \<exists>c. (n_id (g n), c) \<in> set es \<and> 1 < c
               then (g n)\<lparr>isBranchPoint := True\<rparr> else g n)
            = (if \<exists>c'. (n_id n, c') \<in> set (e # es) \<and> 1 < c'
               then n\<lparr>isBranchPoint := True\<rparr> else n)" for n
    proof (cases "n_id n = k \<and> 1 < c")
      case True
      then have gn: "g n = n\<lparr>isBranchPoint := True\<rparr>" by (simp add: g_def)
      have "\<exists>c'. (n_id n, c') \<in> set (e # es) \<and> 1 < c'"
        using True by (intro exI [of _ c]) (simp add: e)
      then show ?thesis unfolding gn by simp
    next
      case False
      then have gn: "g n = n" unfolding g_def by (simp only: if_False)
      have "(\<exists>c'. (n_id n, c') \<in> set (e # es) \<and> 1 < c') \<longleftrightarrow> (\<exists>c. (n_id n, c) \<in> set es \<and> 1 < c)"
        using False unfolding e by auto
      then show ?thesis unfolding gn by simp
    qed
    show ?thesis unfolding map_map comp_def pt ..
  qed
  finally show ?case .
qed

lemma childCount_gt1:
  assumes "distinct (map fst cc)"
  shows "(\<exists>c. (k, c) \<in> set cc \<and> 1 < c) \<longleftrightarrow> 1 < childCount cc k"
proof
  assume "\<exists>c. (k, c) \<in> set cc \<and> 1 < c"
  then obtain c where c: "(k, c) \<in> set cc" "1 < c" by blast
  then have "map_of cc k = Some c" using assms by simp
  then show "1 < childCount cc k" using c(2) by (simp add: childCount_def)
next
  assume "1 < childCount cc k"
  then obtain c where c: "map_of cc k = Some c" "1 < c"
    by (auto simp: childCount_def split: option.splits)
  then have "(k, c) \<in> set cc" by (simp add: map_of_SomeD)
  with c(2) show "\<exists>c. (k, c) \<in> set cc \<and> 1 < c" by blast
qed

lemma outgoingCount_zero:
  "outgoingCount segs k = 0 \<longleftrightarrow> k \<notin> set (map startNodeId segs)"
  by (auto simp: outgoingCount_def filter_empty_conv)

lemma markTerminals_ids: "map n_id (markTerminals segs ns) = map n_id ns"
  by (simp add: markTerminals_def Let_def comp_def if_distrib cong: if_cong)

lemma setBranchPoint_ids: "map n_id (setBranchPoint k ns) = map n_id ns"
  by (induction ns) simp_all

lemma markBranchPoints_ids: "map n_id (markBranchPoints es ns) = map n_id ns"
proof (induction es arbitrary: ns)
  case Nil
  then show ?case by simp
next
  case (Cons e es)
  obtain k c where e: "e = (k, c)" by (cases e)
  show ?case unfolding e by (simp add: Cons.IH setBranchPoint_ids)
qed

text \<open>
  C5: \<open>interpretSentence\<close> returns a skeleton for every sentence, and there a node is a
  branch point exactly when more than one segment starts at it, and terminal exactly
  when none does.
\<close>

theorem branchPoint_terminal_flags:
  "\<exists>sk. interpretSentence sentence cfg = Inr sk
     \<and> (\<forall>n \<in> set (nodes sk).
           (isBranchPoint n \<longleftrightarrow> 1 < outgoingCount (segments sk) (n_id n))
         \<and> (isTerminal n \<longleftrightarrow> outgoingCount (segments sk) (n_id n) = 0))"
proof -
  from interpretSymbols_inv [OF initialInterp_inv, of cfg sentence]
  obtain it where run: "interpretSymbols cfg sentence (initialInterp cfg) = Inr it"
    and inv: "interp_inv it" by blast
  define bp where "bp = (\<lambda>n :: SkeletonNode. if \<exists>c. (n_id n, c) \<in> set (childCounts it) \<and> 1 < c
                              then n\<lparr>isBranchPoint := True\<rparr> else n)"
  define tm where "tm = (\<lambda>node :: SkeletonNode. if n_id node \<notin> set (map startNodeId (i_segments it))
                                 then node\<lparr>isTerminal := True\<rparr> else node)"
  define sk where "sk = \<lparr>nodes = map tm (map bp (i_nodes it)),
                         segments = i_segments it, leaves = i_leaves it\<rparr>"
  from inv have ids: "map n_id (i_nodes it) = [0..<nextNodeId it]"
    and dis: "distinct (map fst (childCounts it))"
    and cnt: "\<forall>k. childCount (childCounts it) k = outgoingCount (i_segments it) k"
    and flg: "\<forall>n \<in> set (i_nodes it). \<not> isTerminal n \<and> \<not> isBranchPoint n"
    by (simp_all add: interp_inv_def)
  have dn: "distinct (map n_id (i_nodes it))" by (simp add: ids)
  have res: "interpretSentence sentence cfg = Inr sk"
    by (simp add: interpretSentence_def run sk_def markTerminals_def Let_def
        markBranchPoints_map [OF dn] bp_def tm_def)
  have props: "(isBranchPoint n \<longleftrightarrow> 1 < outgoingCount (segments sk) (n_id n))
         \<and> (isTerminal n \<longleftrightarrow> outgoingCount (segments sk) (n_id n) = 0)"
    if "n \<in> set (nodes sk)" for n
  proof -
    from that obtain n0 where n0: "n0 \<in> set (i_nodes it)" "n = tm (bp n0)"
      by (auto simp: sk_def)
    have f0: "\<not> isTerminal n0" "\<not> isBranchPoint n0" using flg n0(1) by simp_all
    have idn: "n_id n = n_id n0" by (simp add: n0(2) tm_def bp_def)
    have "isBranchPoint n \<longleftrightarrow> (\<exists>c. (n_id n0, c) \<in> set (childCounts it) \<and> 1 < c)"
      using f0 by (simp add: n0(2) tm_def bp_def)
    also have "\<dots> \<longleftrightarrow> 1 < childCount (childCounts it) (n_id n0)"
      by (rule childCount_gt1 [OF dis])
    finally have b: "isBranchPoint n \<longleftrightarrow> 1 < outgoingCount (segments sk) (n_id n)"
      using cnt by (simp add: idn sk_def)
    have "isTerminal n \<longleftrightarrow> n_id n0 \<notin> set (map startNodeId (i_segments it))"
      using f0 by (simp add: n0(2) tm_def bp_def)
    then have t: "isTerminal n \<longleftrightarrow> outgoingCount (segments sk) (n_id n) = 0"
      by (simp add: outgoingCount_zero idn sk_def)
    from b t show ?thesis by simp
  qed
  from res props show ?thesis by blast
qed

text \<open>
  The sentence \<open>[F]F\<close>: two segments start at the root, which is the branch point; the
  two other nodes are terminal.
\<close>

theorem branchPoint_terminal_flags_witness:
  "\<exists>sk. interpretSentence
           [\<lparr>symbol = ''['', params = noParams\<rparr>, \<lparr>symbol = ''F'', params = noParams\<rparr>,
            \<lparr>symbol = '']'', params = noParams\<rparr>, \<lparr>symbol = ''F'', params = noParams\<rparr>]
           (turtleConfig defaultTreeConfig) = Inr sk
     \<and> map n_id (nodes sk) = [0, 1, 2]
     \<and> map startNodeId (segments sk) = [0, 0]
     \<and> map isBranchPoint (nodes sk) = [True, False, False]
     \<and> map isTerminal (nodes sk) = [False, True, True]"
proof -
  define s0 where "s0 = [\<lparr>symbol = ''['', params = noParams\<rparr>, \<lparr>symbol = ''F'', params = noParams\<rparr>,
            \<lparr>symbol = '']'', params = noParams\<rparr>, \<lparr>symbol = ''F'', params = noParams\<rparr>]"
  define c0 where "c0 = turtleConfig defaultTreeConfig"
  from branchPoint_terminal_flags [of s0 c0]
  obtain sk where sk: "interpretSentence s0 c0 = Inr sk"
    and fl: "\<forall>n \<in> set (nodes sk).
           (isBranchPoint n \<longleftrightarrow> 1 < outgoingCount (segments sk) (n_id n))
         \<and> (isTerminal n \<longleftrightarrow> outgoingCount (segments sk) (n_id n) = 0)"
    by blast
  have run: "\<exists>it. interpretSymbols c0 s0 (initialInterp c0) = Inr it
      \<and> map n_id (i_nodes it) = [0, 1, 2] \<and> map startNodeId (i_segments it) = [0, 0]"
    by (simp add: s0_def c0_def initialInterp_def interpretSymbol_def createNode_def
        createSegment_def cloneTurtleState_def noParams_def Let_def)
  then obtain it where it: "interpretSymbols c0 s0 (initialInterp c0) = Inr it"
      "map n_id (i_nodes it) = [0, 1, 2]" "map startNodeId (i_segments it) = [0, 0]"
    by (elim exE conjE)
  have skeq: "sk = \<lparr>nodes = markTerminals (i_segments it)
                         (markBranchPoints (childCounts it) (i_nodes it)),
               segments = i_segments it, leaves = i_leaves it\<rparr>"
    using sk by (simp add: interpretSentence_def it(1))
  have ids: "map n_id (nodes sk) = [0, 1, 2]"
    by (simp add: skeq markTerminals_ids markBranchPoints_ids it(2))
  have segs: "map startNodeId (segments sk) = [0, 0]"
    by (simp add: skeq it(3))
  have oc: "outgoingCount (segments sk) k = length (filter (\<lambda>x. x = k) (map startNodeId (segments sk)))"
    for k by (simp add: outgoingCount_def filter_map comp_def)
  have o: "outgoingCount (segments sk) 0 = 2" "outgoingCount (segments sk) 1 = 0"
    "outgoingCount (segments sk) 2 = 0"
    unfolding oc segs by simp_all
  have o': "outgoingCount (segments sk) (Suc 0) = 0" using o(2) by simp
  from ids obtain a b c where abc: "nodes sk = [a, b, c]" "n_id a = 0" "n_id b = 1" "n_id c = 2"
    by (auto simp: map_eq_Cons_conv)
  from fl abc(1) have
    "(isBranchPoint a \<longleftrightarrow> 1 < outgoingCount (segments sk) (n_id a))
       \<and> (isTerminal a \<longleftrightarrow> outgoingCount (segments sk) (n_id a) = 0)"
    "(isBranchPoint b \<longleftrightarrow> 1 < outgoingCount (segments sk) (n_id b))
       \<and> (isTerminal b \<longleftrightarrow> outgoingCount (segments sk) (n_id b) = 0)"
    "(isBranchPoint c \<longleftrightarrow> 1 < outgoingCount (segments sk) (n_id c))
       \<and> (isTerminal c \<longleftrightarrow> outgoingCount (segments sk) (n_id c) = 0)"
    by simp_all
  then have flags: "map isBranchPoint (nodes sk) = [True, False, False]"
    "map isTerminal (nodes sk) = [False, True, True]"
    by (simp_all add: abc o o')
  from sk ids segs flags have "interpretSentence s0 c0 = Inr sk
     \<and> map n_id (nodes sk) = [0, 1, 2]
     \<and> map startNodeId (segments sk) = [0, 0]
     \<and> map isBranchPoint (nodes sk) = [True, False, False]
     \<and> map isTerminal (nodes sk) = [False, True, True]"
    by iprover
  then show ?thesis unfolding s0_def c0_def by (rule exI)
qed

section \<open>\<open>generateRing\<close>\<close>

lemma rotate_normSq:
  "normSq (rotateVec3ByQuat v q) =
     normSq v + 4 * (qx q * qx q + qy q * qy q + qz q * qz q + qw q * qw q - 1)
       * ((qx q * qx q + qy q * qy q + qz q * qz q) * normSq v
           - (qx q * vx v + qy q * vy v + qz q * vz v) * (qx q * vx v + qy q * vy v + qz q * vz v))"
  unfolding normSq_def rotateVec3ByQuat_def crossVec3_def scaleVec3_def addVec3_def Let_def
  by (simp add: algebra_simps)

lemma generateRing_fold:
  "fold (generateRing_step c q r n) [0..<m] \<lparr>ring_positions = [], ring_normals = []\<rparr> =
     \<lparr>ring_positions = concat (map (\<lambda>i. coords (addVec3 c (ringRotated q r n i))) [0..<m]),
      ring_normals = concat (map (\<lambda>i. coords (normalizeVec3 (ringRotated q r n i))) [0..<m])\<rparr>"
proof (induction m)
  case 0
  then show ?case by simp
next
  case (Suc m)
  have "fold (generateRing_step c q r n) [0..<Suc m] \<lparr>ring_positions = [], ring_normals = []\<rparr>
      = generateRing_step c q r n m
          (fold (generateRing_step c q r n) [0..<m] \<lparr>ring_positions = [], ring_normals = []\<rparr>)"
    by simp
  also have "\<dots> = generateRing_step c q r n m
     \<lparr>ring_positions = concat (map (\<lambda>i. coords (addVec3 c (ringRotated q r n i))) [0..<m]),
      ring_normals = concat (map (\<lambda>i. coords (normalizeVec3 (ringRotated q r n i))) [0..<m])\<rparr>"
    by (simp only: Suc.IH)
  also have "\<dots> =
     \<lparr>ring_positions = concat (map (\<lambda>i. coords (addVec3 c (ringRotated q r n i))) [0..<Suc m]),
      ring_normals = concat (map (\<lambda>i. coords (normalizeVec3 (ringRotated q r n i))) [0..<Suc m])\<rparr>"
    by (simp add: generateRing_step_def ringRotated_def coords_def Let_def)
  finally show ?case .
qed

lemma concat_coords_length: "length (concat (map (\<lambda>i. coords (f i)) [0..<m])) = 3 * m"
  by (induction m) (simp_all add: coords_def)

lemma vertexAt_append_last: "length xs = 3 * m \<Longrightarrow> vertexAt (xs @ coords v) m = v"
  by (simp add: vertexAt_def nth_append coords_def)

lemma vertexAt_append_first: "3 * i + 2 < length xs \<Longrightarrow> vertexAt (xs @ ys) i = vertexAt xs i"
  by (simp add: vertexAt_def nth_append)

lemma vertexAt_concat:
  "i < m \<Longrightarrow> vertexAt (concat (map (\<lambda>i. coords (f i)) [0..<m])) i = f i"
proof (induction m)
  case 0
  then show ?case by simp
next
  case (Suc m)
  let ?xs = "concat (map (\<lambda>i. coords (f i)) [0..<m])"
  have len: "length ?xs = 3 * m" by (rule concat_coords_length)
  have app: "concat (map (\<lambda>i. coords (f i)) [0..<Suc m]) = ?xs @ coords (f m)" by simp
  show ?case
  proof (cases "i < m")
    case True
    then have "3 * i + 2 < length ?xs" using len by simp
    then have "vertexAt (?xs @ coords (f m)) i = vertexAt ?xs i"
      by (rule vertexAt_append_first)
    with Suc.IH [OF True] app show ?thesis by simp
  next
    case False
    then have im: "i = m" using Suc.prems by simp
    have "vertexAt (?xs @ coords (f m)) m = f m"
      by (rule vertexAt_append_last [OF len])
    with app im show ?thesis by simp
  qed
qed

lemma generateRing_eq:
  "generateRing c q r n =
     \<lparr>ring_positions = concat (map (\<lambda>i. coords (addVec3 c (ringRotated q r n i))) [0..<n]),
      ring_normals = concat (map (\<lambda>i. coords (normalizeVec3 (ringRotated q r n i))) [0..<n])\<rparr>"
  by (simp add: generateRing_def generateRing_fold)

lemma ringRotated_normSq:
  assumes "qx q * qx q + qy q * qy q + qz q * qz q + qw q * qw q = 1"
  shows "normSq (ringRotated q r n i) = r * r"
proof -
  define a where "a = (real i * 2 * pi) / real n"
  have "normSq (ringRotated q r n i) = normSq (vec3 (cos a * r) 0 (sin a * r))"
    unfolding ringRotated_def a_def [symmetric] rotate_normSq using assms by simp
  also have "\<dots> = cos a * r * (cos a * r) + sin a * r * (sin a * r)"
    by (simp add: normSq_def vec3_def)
  also have "\<dots> = (cos a * cos a + sin a * sin a) * (r * r)"
    by algebra
  also have "\<dots> = r * r"
    using sin_cos_squared_add2 [of a] by (simp add: power2_eq_square)
  finally show ?thesis .
qed

lemma lengthVec3_normSq: "lengthVec3 v = sqrt (normSq v)"
  by (simp add: lengthVec3_def normSq_def)


text \<open>
  C4, as stated, at a ring of radius 0 and at an orientation that is not a unit
  quaternion.  With radius 0 every rotated position is the zero vector, which
  \<open>normalizeVec3\<close> returns unchanged: the normal has length 0, not 1.  With the
  orientation \<open>(2, 0, 0, 0)\<close> and radius 1, vertex 1 of 4 lies at distance 7 from the
  center.
\<close>

theorem generateRing_degenerate_counterexample:
  "lengthVec3 (vertexAt (ring_normals (generateRing (vec3 0 5 0) identityQuat 0 6)) 0) \<noteq> 1
   \<and> distanceVec3 (vec3 0 0 0)
        (vertexAt (ring_positions (generateRing (vec3 0 0 0) \<lparr>qx = 2, qy = 0, qz = 0, qw = 0\<rparr> 1 4)) 1)
       \<noteq> 1"
proof -
  have z: "ringRotated identityQuat 0 6 0 = \<lparr>vx = 0, vy = 0, vz = 0\<rparr>"
    by (simp add: ringRotated_def rotateVec3ByQuat_def identityQuat_def vec3_def crossVec3_def
        scaleVec3_def addVec3_def Let_def)
  have "vertexAt (ring_normals (generateRing (vec3 0 5 0) identityQuat 0 6)) 0
      = normalizeVec3 (ringRotated identityQuat 0 6 0)"
    unfolding generateRing_eq by (simp add: vertexAt_concat)
  then have a: "lengthVec3 (vertexAt (ring_normals (generateRing (vec3 0 5 0) identityQuat 0 6)) 0) = 0"
    by (simp add: z normalizeVec3_def lengthVec3_def Let_def)
  have ang: "(real (Suc 0) * 2 * pi) / real 4 = pi / 2" by simp
  have w: "ringRotated \<lparr>qx = 2, qy = 0, qz = 0, qw = 0\<rparr> 1 4 (Suc 0) = \<lparr>vx = 0, vy = 0, vz = - 7\<rparr>"
    unfolding ringRotated_def ang
    by (simp add: rotateVec3ByQuat_def vec3_def crossVec3_def scaleVec3_def addVec3_def Let_def)
  have "vertexAt (ring_positions (generateRing (vec3 0 0 0) \<lparr>qx = 2, qy = 0, qz = 0, qw = 0\<rparr> 1 4)) 1
      = addVec3 (vec3 0 0 0) (ringRotated \<lparr>qx = 2, qy = 0, qz = 0, qw = 0\<rparr> 1 4 1)"
    unfolding generateRing_eq by (simp add: vertexAt_concat)
  then have b: "distanceVec3 (vec3 0 0 0)
        (vertexAt (ring_positions (generateRing (vec3 0 0 0) \<lparr>qx = 2, qy = 0, qz = 0, qw = 0\<rparr> 1 4)) 1)
       = 7"
    by (simp add: w distanceVec3_def lengthVec3_def subVec3_def addVec3_def vec3_def)
  from a b show ?thesis by simp
qed

text \<open>
  C4, amended: for a unit orientation quaternion and a radius \<open>r > 0\<close>, the ring has
  exactly \<open>n\<close> vertices and \<open>n\<close> normals, every vertex lies at Euclidean distance \<open>r\<close>
  from the center, and every normal has length 1 and is the vector from the center to
  its vertex, divided by \<open>r\<close>.
\<close>

theorem generateRing_spec:
  assumes unit: "qx q * qx q + qy q * qy q + qz q * qz q + qw q * qw q = 1" and pos: "0 < r"
  shows "length (ring_positions (generateRing c q r n)) = 3 * n
       \<and> length (ring_normals (generateRing c q r n)) = 3 * n
       \<and> (\<forall>i<n. distanceVec3 c (vertexAt (ring_positions (generateRing c q r n)) i) = r
               \<and> lengthVec3 (vertexAt (ring_normals (generateRing c q r n)) i) = 1
               \<and> vertexAt (ring_normals (generateRing c q r n)) i
                   = scaleVec3 (subVec3 (vertexAt (ring_positions (generateRing c q r n)) i) c) (1 / r))"
proof -
  have l1: "length (ring_positions (generateRing c q r n)) = 3 * n"
    unfolding generateRing_eq by (simp add: concat_coords_length)
  have l2: "length (ring_normals (generateRing c q r n)) = 3 * n"
    unfolding generateRing_eq by (simp add: concat_coords_length)
  have v: "distanceVec3 c (vertexAt (ring_positions (generateRing c q r n)) i) = r
               \<and> lengthVec3 (vertexAt (ring_normals (generateRing c q r n)) i) = 1
               \<and> vertexAt (ring_normals (generateRing c q r n)) i
                   = scaleVec3 (subVec3 (vertexAt (ring_positions (generateRing c q r n)) i) c) (1 / r)"
    if i: "i < n" for i
  proof -
    define p where "p = ringRotated q r n i"
    have pv: "vertexAt (ring_positions (generateRing c q r n)) i = addVec3 c p"
      unfolding generateRing_eq p_def by (simp add: vertexAt_concat [OF i])
    have nv: "vertexAt (ring_normals (generateRing c q r n)) i = normalizeVec3 p"
      unfolding generateRing_eq p_def by (simp add: vertexAt_concat [OF i])
    have sq: "normSq p = r * r" unfolding p_def by (rule ringRotated_normSq [OF unit])
    have len: "lengthVec3 p = r"
      using pos by (simp add: lengthVec3_normSq sq real_sqrt_mult_self)
    have diff: "subVec3 (addVec3 c p) c = p"
      by (simp add: subVec3_def addVec3_def)
    have d: "distanceVec3 c (addVec3 c p) = r"
      by (simp add: distanceVec3_def diff len)
    have nz: "normalizeVec3 p = scaleVec3 p (1 / r)"
      using pos by (simp add: normalizeVec3_def len scaleVec3_def Let_def)
    have "normSq (scaleVec3 p (1 / r)) = normSq p / (r * r)"
      by (simp add: normSq_def scaleVec3_def algebra_simps add_divide_distrib)
    then have "normSq (scaleVec3 p (1 / r)) = 1" using pos by (simp add: sq)
    then have nl: "lengthVec3 (normalizeVec3 p) = 1"
      by (simp add: nz lengthVec3_normSq)
    from d nl nz show ?thesis by (simp add: pv nv diff)
  qed
  from l1 l2 v show ?thesis by blast
qed

text \<open>The ring of center \<open>(0, 5, 0)\<close>, radius 2.5 and 6 segments, at its vertex 4.\<close>

theorem generateRing_spec_witness:
  "qx identityQuat * qx identityQuat + qy identityQuat * qy identityQuat
     + qz identityQuat * qz identityQuat + qw identityQuat * qw identityQuat = 1
   \<and> (0::real) < 5 / 2
   \<and> length (ring_positions (generateRing (vec3 0 5 0) identityQuat (5 / 2) 6)) = 18
   \<and> distanceVec3 (vec3 0 5 0)
        (vertexAt (ring_positions (generateRing (vec3 0 5 0) identityQuat (5 / 2) 6)) 4) = 5 / 2
   \<and> lengthVec3 (vertexAt (ring_normals (generateRing (vec3 0 5 0) identityQuat (5 / 2) 6)) 4) = 1"
proof -
  have u: "qx identityQuat * qx identityQuat + qy identityQuat * qy identityQuat
     + qz identityQuat * qz identityQuat + qw identityQuat * qw identityQuat = 1"
    by (simp add: identityQuat_def)
  have p: "(0::real) < 5 / 2" by simp
  from generateRing_spec [OF u p, of "vec3 0 5 0" 6]
  have l: "length (ring_positions (generateRing (vec3 0 5 0) identityQuat (5 / 2) 6)) = 3 * 6"
    and v: "\<forall>i<6. distanceVec3 (vec3 0 5 0)
                (vertexAt (ring_positions (generateRing (vec3 0 5 0) identityQuat (5 / 2) 6)) i) = 5 / 2
             \<and> lengthVec3 (vertexAt (ring_normals (generateRing (vec3 0 5 0) identityQuat (5 / 2) 6)) i) = 1
             \<and> vertexAt (ring_normals (generateRing (vec3 0 5 0) identityQuat (5 / 2) 6)) i
                 = scaleVec3 (subVec3 (vertexAt (ring_positions
                      (generateRing (vec3 0 5 0) identityQuat (5 / 2) 6)) i) (vec3 0 5 0)) (1 / (5 / 2))"
    by blast+
  have "(4::nat) < 6" by simp
  with v have "distanceVec3 (vec3 0 5 0)
                (vertexAt (ring_positions (generateRing (vec3 0 5 0) identityQuat (5 / 2) 6)) 4) = 5 / 2
             \<and> lengthVec3 (vertexAt (ring_normals (generateRing (vec3 0 5 0) identityQuat (5 / 2) 6)) 4) = 1"
    by blast
  with u p l show ?thesis by simp
qed

section \<open>Buffer shapes\<close>

lemma generateRing_lengths:
  "length (ring_positions (generateRing c q r n)) = 3 * n
   \<and> length (ring_normals (generateRing c q r n)) = 3 * n"
  unfolding generateRing_eq by (simp add: concat_coords_length)

lemma connectRings_fold_length:
  "length (fold (\<lambda>i idx.
             let r1Current = a + i; r2Current = b + i;
                 r1Next = a + ((i + 1) mod n); r2Next = b + ((i + 1) mod n)
             in idx @ [r1Current, r2Current, r1Next] @ [r1Next, r2Current, r2Next])
       [0..<m] acc) = length acc + 6 * m"
  by (induction m) (simp_all add: Let_def)

lemma connectRings_length: "length (connectRings a b n) = 6 * n"
  unfolding connectRings_def using connectRings_fold_length [of a b n n "[]"] by simp

lemma ringUvs_fold_length:
  "length (fold (\<lambda>i acc.
             let uv = calculateBranchUV k i 2 n len ts off
             in acc @ [uv_u uv, uv_v uv]) [0..<m] uvs0) = length uvs0 + 2 * m"
  by (induction m) (simp_all add: Let_def)

lemma ringUvs_length: "length (ringUvs k n len ts off uvs0) = length uvs0 + 2 * n"
  unfolding ringUvs_def by (rule ringUvs_fold_length)

lemma buildBranchGeometry_step_shape:
  assumes "buildBranchGeometry_step sk cfg infos seg idx acc = Inr acc'"
    and "accShape (radialSegments cfg) k acc"
  shows "accShape (radialSegments cfg) (Suc k) acc'"
  using assms unfolding accShape_def
  by (auto simp: buildBranchGeometry_step_def Let_def generateRing_lengths ringUvs_length
      connectRings_length algebra_simps split: sum.splits option.splits)

lemma buildBranchGeometry_loop_shape:
  "buildBranchGeometry_loop sk cfg infos segs idx acc = Inr acc'
   \<Longrightarrow> accShape (radialSegments cfg) k acc
   \<Longrightarrow> accShape (radialSegments cfg) (k + length segs) acc'"
proof (induction segs arbitrary: idx acc k)
  case Nil
  then show ?case by simp
next
  case (Cons seg segs)
  from Cons.prems(1) obtain acc1 where
    s: "buildBranchGeometry_step sk cfg infos seg idx acc = Inr acc1"
    and l: "buildBranchGeometry_loop sk cfg infos segs (idx + 1) acc1 = Inr acc'"
    by (auto split: sum.splits)
  from buildBranchGeometry_step_shape [OF s Cons.prems(2)]
  have "accShape (radialSegments cfg) (Suc k) acc1" .
  from Cons.IH [OF l this] show ?case by simp
qed

lemma accShape_bufferShape:
  assumes "accShape n k acc"
  shows "bufferShape \<lparr>positions = allPositions acc, normals = allNormals acc,
                      uvs = allUvs acc, indices = allIndices acc\<rparr>"
proof -
  have "real (4 * n * k) = real (6 * n * k) / 3 * 2" by simp
  moreover have "(6 * n * k) mod 3 = (3 * (2 * n * k)) mod 3" by (simp add: mult.assoc)
  then have "(6 * n * k) mod 3 = 0" by simp
  ultimately show ?thesis using assms by (simp add: bufferShape_def accShape_def)
qed

lemma buildBranchGeometry_shape:
  assumes "buildBranchGeometry sk cfg = Inr g"
  shows "bufferShape g"
proof -
  define acc0 where "acc0 = \<lparr>allPositions = [], allNormals = [], allUvs = [], allIndices = ([]::nat list),
                 vertexOffset = (0::nat)\<rparr>"
  from assms obtain acc where
    l: "buildBranchGeometry_loop sk cfg (map (\<lambda>seg. \<lparr>info_length = s_length seg\<rparr>) (segments sk))
          (segments sk) 0 acc0 = Inr acc"
    and g: "g = \<lparr>positions = allPositions acc, normals = allNormals acc,
                  uvs = allUvs acc, indices = allIndices acc\<rparr>"
    by (auto simp: buildBranchGeometry_def Let_def acc0_def split: sum.splits)
  have "accShape (radialSegments cfg) 0 acc0" by (simp add: accShape_def acc0_def)
  from buildBranchGeometry_loop_shape [OF l this] show ?thesis
    unfolding g by (rule accShape_bufferShape)
qed


lemma find_id_Some:
  "k \<in> set (map n_id ns) \<Longrightarrow> \<exists>n. find (\<lambda>n. n_id n = k) ns = Some n"
proof -
  assume "k \<in> set (map n_id ns)"
  then have "\<exists>x. x \<in> set ns \<and> n_id x = k" by auto
  then have "find (\<lambda>n. n_id n = k) ns \<noteq> None" by (simp add: find_None_iff)
  then show ?thesis by auto
qed

lemma calculateVOffset_total:
  "idx \<le> length infos \<Longrightarrow> \<exists>v. calculateVOffset idx infos ts = Inr v"
  by (simp add: calculateVOffset_def)

lemma buildBranchGeometry_step_total:
  assumes "idx \<le> length infos"
    and "startNodeId seg \<in> set (map n_id (nodes sk))"
    and "endNodeId seg \<in> set (map n_id (nodes sk))"
  shows "\<exists>acc'. buildBranchGeometry_step sk cfg infos seg idx acc = Inr acc'"
proof -
  from calculateVOffset_total [OF assms(1)]
  obtain v where v: "calculateVOffset idx infos (textureRepeatY cfg) = Inr v" by blast
  from find_id_Some [OF assms(2)]
  obtain sn where sn: "find (\<lambda>n. n_id n = startNodeId seg) (nodes sk) = Some sn" by blast
  from find_id_Some [OF assms(3)]
  obtain en where en: "find (\<lambda>n. n_id n = endNodeId seg) (nodes sk) = Some en" by blast
  show ?thesis by (simp add: buildBranchGeometry_step_def v sn en Let_def)
qed

lemma buildBranchGeometry_loop_total:
  assumes "idx + length segs \<le> length infos"
    and "list_all (\<lambda>s. startNodeId s \<in> set (map n_id (nodes sk))
                   \<and> endNodeId s \<in> set (map n_id (nodes sk))) segs"
  shows "\<exists>acc'. buildBranchGeometry_loop sk cfg infos segs idx acc = Inr acc'"
  using assms
proof (induction segs arbitrary: idx acc)
  case Nil
  then show ?case by simp
next
  case (Cons seg segs)
  have i: "idx \<le> length infos" using Cons.prems(1) by simp
  from Cons.prems(2) have r: "startNodeId seg \<in> set (map n_id (nodes sk))"
    "endNodeId seg \<in> set (map n_id (nodes sk))"
    and rest: "list_all (\<lambda>s. startNodeId s \<in> set (map n_id (nodes sk))
                   \<and> endNodeId s \<in> set (map n_id (nodes sk))) segs"
    by simp_all
  from buildBranchGeometry_step_total [OF i r, of cfg acc]
  obtain acc1 where s: "buildBranchGeometry_step sk cfg infos seg idx acc = Inr acc1" by blast
  have "(idx + 1) + length segs \<le> length infos" using Cons.prems(1) by simp
  from Cons.IH [OF this rest, of acc1] s show ?case by simp
qed

lemma buildBranchGeometry_total:
  assumes "segmentsResolved sk"
  shows "\<exists>g. buildBranchGeometry sk cfg = Inr g"
proof -
  have "0 + length (segments sk)
      \<le> length (map (\<lambda>seg. \<lparr>info_length = s_length seg\<rparr>) (segments sk))" by simp
  from buildBranchGeometry_loop_total [OF this assms [unfolded segmentsResolved_def]]
  obtain acc where "buildBranchGeometry_loop sk cfg
      (map (\<lambda>seg. \<lparr>info_length = s_length seg\<rparr>) (segments sk)) (segments sk) 0
      \<lparr>allPositions = [], allNormals = [], allUvs = [], allIndices = [], vertexOffset = 0\<rparr> = Inr acc"
    by blast
  then show ?thesis by (simp add: buildBranchGeometry_def Let_def)
qed

lemma buildBranchGeometry_empty:
  "segments sk = [] \<Longrightarrow>
   buildBranchGeometry sk cfg = Inr \<lparr>positions = [], normals = [], uvs = [], indices = []\<rparr>"
  by (simp add: buildBranchGeometry_def)

lemma leafShape_vertices_fold_length:
  "length (fst (fold (leafShape_vertices cfg) rows (ps, us))) = length ps
   \<and> length (snd (fold (leafShape_vertices cfg) rows (ps, us))) = length us"
proof (induction rows arbitrary: ps us)
  case Nil
  then show ?case by simp
next
  case (Cons row rows)
  obtain ps' us' where step: "leafShape_vertices cfg row (ps, us) = (ps', us')"
    by (cases "leafShape_vertices cfg row (ps, us)")
  then have "length ps' = length ps \<and> length us' = length us"
    by (auto simp: leafShape_vertices_def Let_def)
  with Cons.IH [of ps' us'] step show ?case by simp
qed

lemma leafShape_normals_fold_length:
  "length (fold (leafShape_normals cfg) rows ns) = length ns"
proof (induction rows arbitrary: ns)
  case Nil
  then show ?case by simp
next
  case (Cons row rows)
  have "length (leafShape_normals cfg row ns) = length ns"
    by (simp add: leafShape_normals_def Let_def)
  with Cons.IH [of "leafShape_normals cfg row ns"] show ?case by simp
qed

lemma leafShape_indices_fold_length:
  "length (fst (fold leafShape_indices segs (idx, off))) = length idx"
proof (induction segs arbitrary: idx off)
  case Nil
  then show ?case by simp
next
  case (Cons seg segs)
  obtain idx' off' where step: "leafShape_indices seg (idx, off) = (idx', off')"
    by (cases "leafShape_indices seg (idx, off)")
  then have "length idx' = length idx"
    by (auto simp: leafShape_indices_def Let_def)
  with Cons.IH [of idx' off'] step show ?case by simp
qed

lemma createLeafShape_lengths:
  "length (positions (createLeafShape cfg)) = 6 * (shape_segments cfg + 1)
   \<and> length (normals (createLeafShape cfg)) = 6 * (shape_segments cfg + 1)
   \<and> length (uvs (createLeafShape cfg)) = 4 * (shape_segments cfg + 1)
   \<and> length (indices (createLeafShape cfg)) = 6 * shape_segments cfg"
  unfolding createLeafShape_def Let_def case_prod_beta
  by (simp add: leafShape_vertices_fold_length leafShape_normals_fold_length
      leafShape_indices_fold_length del: upt_Suc replicate_Suc)

lemma createLeafShape_shape: "bufferShape (createLeafShape cfg)"
proof -
  have "(6 * shape_segments cfg) mod 3 = (3 * (2 * shape_segments cfg)) mod 3"
    by (simp add: mult.assoc)
  then have "(6 * shape_segments cfg) mod 3 = 0" by simp
  then show ?thesis using createLeafShape_lengths [of cfg] by (simp add: bufferShape_def)
qed

lemma segs_inv_mono:
  "segs_inv it \<Longrightarrow> i_segments it' = i_segments it \<Longrightarrow> nextNodeId it' = nextNodeId it
   \<Longrightarrow> segs_inv it'"
  by (simp add: segs_inv_def)

lemma interpretSymbol_segs_inv:
  assumes inv: "interp_inv it" and sg: "segs_inv it"
    and step: "interpretSymbol cfg sy it = Inr it'"
  shows "segs_inv it'"
proof (cases "symbol sy = ''F''")
  case True
  from inv have ids: "map n_id (i_nodes it) = [0..<nextNodeId it]"
    and cur: "currentNodeId (state it) < nextNodeId it"
    by (simp_all add: interp_inv_def)
  from find_node_by_id [OF ids cur]
  obtain cn where cn: "find (\<lambda>n. n_id n = currentNodeId (state it)) (i_nodes it) = Some cn"
    "n_id cn = currentNodeId (state it)" by blast
  have sub: "list_all (\<lambda>s. startNodeId s < Suc (nextNodeId it) \<and> endNodeId s < Suc (nextNodeId it))
      (i_segments it)"
    using sg by (auto simp: segs_inv_def list_all_iff)
  from step True cn cur sub show ?thesis
    by (auto simp: interpretSymbol_def Let_def find_append_list segs_inv_def createSegment_def
        createNode_def)
next
  case False
  have "i_segments it' = i_segments it \<and> nextNodeId it' = nextNodeId it"
    using step False
    by (auto simp: interpretSymbol_def Let_def rotateState_def split: if_splits list.splits)
  then show ?thesis using segs_inv_mono [OF sg] by simp
qed

lemma interpretSymbols_segs_inv:
  "interp_inv it \<Longrightarrow> segs_inv it \<Longrightarrow> interpretSymbols cfg sentence it = Inr it'
   \<Longrightarrow> interp_inv it' \<and> segs_inv it'"
proof (induction sentence arbitrary: it)
  case Nil
  then show ?case by simp
next
  case (Cons sy sentence)
  from interpretSymbol_inv [OF Cons.prems(1), of cfg sy]
  obtain it1 where s: "interpretSymbol cfg sy it = Inr it1" "interp_inv it1" by blast
  have sg1: "segs_inv it1" by (rule interpretSymbol_segs_inv [OF Cons.prems(1,2) s(1)])
  from Cons.prems(3) s(1) have "interpretSymbols cfg sentence it1 = Inr it'" by simp
  from Cons.IH [OF s(2) sg1 this] show ?case .
qed

lemma interpretSentence_resolved:
  assumes "interpretSentence sentence cfg = Inr sk"
  shows "segmentsResolved sk"
proof -
  from assms obtain it where run: "interpretSymbols cfg sentence (initialInterp cfg) = Inr it"
    and sk: "sk = \<lparr>nodes = markTerminals (i_segments it)
                         (markBranchPoints (childCounts it) (i_nodes it)),
               segments = i_segments it, leaves = i_leaves it\<rparr>"
    by (auto simp: interpretSentence_def split: sum.splits)
  have "segs_inv (initialInterp cfg)" by (simp add: segs_inv_def initialInterp_def Let_def)
  from interpretSymbols_segs_inv [OF initialInterp_inv this run]
  have inv: "interp_inv it" and sg: "segs_inv it" by simp_all
  from inv have ids: "map n_id (i_nodes it) = [0..<nextNodeId it]" by (simp add: interp_inv_def)
  have "map n_id (nodes sk) = [0..<nextNodeId it]"
    by (simp add: sk markTerminals_ids markBranchPoints_ids ids)
  then have "set (map n_id (nodes sk)) = {0..<nextNodeId it}" by simp
  then show ?thesis using sg unfolding segmentsResolved_def segs_inv_def sk
    by (simp add: list_all_iff)
qed


text \<open>
  C6: whenever \<open>buildBranchGeometry\<close> returns, its buffers have the lengths
  \<open>normals = positions\<close>, \<open>uvs = positions / 3 * 2\<close> and \<open>indices\<close> divisible by 3; it
  does return for every skeleton whose segments refer to nodes of the skeleton (the
  invariant of the data model), in particular for every skeleton that
  \<open>interpretSentence\<close> produces; \<open>createLeafShape\<close> has the same lengths for every
  configuration; and without segments the four buffers are empty arrays.
\<close>

theorem buffer_shape:
  "(\<forall>g. buildBranchGeometry sk cfg = Inr g \<longrightarrow> bufferShape g)
   \<and> (segmentsResolved sk \<longrightarrow> (\<exists>g. buildBranchGeometry sk cfg = Inr g \<and> bufferShape g))
   \<and> (\<forall>sk'. interpretSentence sentence tcfg = Inr sk'
             \<longrightarrow> (\<exists>g. buildBranchGeometry sk' cfg = Inr g \<and> bufferShape g))
   \<and> bufferShape (createLeafShape lcfg)
   \<and> (segments sk = []
        \<longrightarrow> buildBranchGeometry sk cfg
              = Inr \<lparr>positions = [], normals = [], uvs = [], indices = []\<rparr>)"
proof -
  have a: "\<forall>g. buildBranchGeometry sk cfg = Inr g \<longrightarrow> bufferShape g"
    using buildBranchGeometry_shape by blast
  have b: "\<exists>g. buildBranchGeometry s cfg = Inr g \<and> bufferShape g" if "segmentsResolved s" for s
    using buildBranchGeometry_total [OF that, of cfg] buildBranchGeometry_shape by blast
  have c: "\<forall>sk'. interpretSentence sentence tcfg = Inr sk'
             \<longrightarrow> (\<exists>g. buildBranchGeometry sk' cfg = Inr g \<and> bufferShape g)"
    using b interpretSentence_resolved by blast
  from a b [of sk] c createLeafShape_shape [of lcfg] buildBranchGeometry_empty [of sk cfg]
  show ?thesis by blast
qed

text \<open>A skeleton of one segment between two nodes, and one of the root alone.\<close>

theorem buffer_shape_witness:
  "segmentsResolved
     \<lparr>nodes = [createNode 0 (vec3 0 0 0) identityQuat 1 None 0,
               createNode 1 (vec3 0 1 0) identityQuat 1 (Some 0) 0],
      segments = [\<lparr>startNodeId = 0, endNodeId = 1, startRadius = 1, endRadius = 1, s_length = 1\<rparr>],
      leaves = []\<rparr>
   \<and> (\<exists>g. buildBranchGeometry
             \<lparr>nodes = [createNode 0 (vec3 0 0 0) identityQuat 1 None 0,
                       createNode 1 (vec3 0 1 0) identityQuat 1 (Some 0) 0],
              segments = [\<lparr>startNodeId = 0, endNodeId = 1, startRadius = 1, endRadius = 1,
                           s_length = 1\<rparr>],
              leaves = []\<rparr> (branchConfig defaultTreeConfig) = Inr g
          \<and> bufferShape g)
   \<and> segments \<lparr>nodes = [createNode 0 (vec3 0 0 0) identityQuat 1 None 0], segments = [],
                leaves = []\<rparr> = []
   \<and> buildBranchGeometry
        \<lparr>nodes = [createNode 0 (vec3 0 0 0) identityQuat 1 None 0], segments = [], leaves = []\<rparr>
        (branchConfig defaultTreeConfig)
       = Inr \<lparr>positions = [], normals = [], uvs = [], indices = []\<rparr>"
proof -
  define sk1 where "sk1 = \<lparr>nodes = [createNode 0 (vec3 0 0 0) identityQuat 1 None 0,
               createNode 1 (vec3 0 1 0) identityQuat 1 (Some 0) 0],
      segments = [\<lparr>startNodeId = 0, endNodeId = 1, startRadius = 1, endRadius = 1, s_length = 1\<rparr>],
      leaves = []\<rparr>"
  define sk0 where "sk0 = \<lparr>nodes = [createNode 0 (vec3 0 0 0) identityQuat 1 None 0],
      segments = ([]::SkeletonSegment list), leaves = ([]::LeafPoint list)\<rparr>"
  have r: "segmentsResolved sk1"
    by (simp add: segmentsResolved_def sk1_def createNode_def)
  have e: "segments sk0 = []" by (simp add: sk0_def)
  from buffer_shape [of sk1 "branchConfig defaultTreeConfig"] r
  have one: "\<exists>g. buildBranchGeometry sk1 (branchConfig defaultTreeConfig) = Inr g \<and> bufferShape g"
    by blast
  from buffer_shape [of sk0 "branchConfig defaultTreeConfig"] e
  have two: "buildBranchGeometry sk0 (branchConfig defaultTreeConfig)
       = Inr \<lparr>positions = [], normals = [], uvs = [], indices = []\<rparr>"
    by blast
  from r one e two show ?thesis unfolding sk1_def sk0_def by blast
qed

section \<open>Leaf instances\<close>

lemma writeFrom_length: "length (writeFrom k vs xs) = length xs"
  by (induction vs arbitrary: k xs) simp_all

lemma writeFrom_nth:
  "j < length xs \<Longrightarrow>
   writeFrom k vs xs ! j = (if k \<le> j \<and> j < k + length vs then vs ! (j - k) else xs ! j)"
proof (induction vs arbitrary: k xs)
  case Nil
  then show ?case by auto
next
  case (Cons v vs)
  have len: "j < length (xs[k := v])" using Cons.prems by simp
  have "writeFrom k (v # vs) xs ! j = writeFrom (k + 1) vs (xs[k := v]) ! j" by simp
  also have "\<dots> = (if k + 1 \<le> j \<and> j < k + 1 + length vs then vs ! (j - (k + 1))
                     else xs[k := v] ! j)"
    by (rule Cons.IH [OF len])
  also have "\<dots> = (if k \<le> j \<and> j < k + length (v # vs) then (v # vs) ! (j - k) else xs ! j)"
  proof (cases "j = k")
    case True
    then show ?thesis using Cons.prems by simp
  next
    case False
    then show ?thesis by (auto simp: nth_Cons')
  qed
  finally show ?case .
qed

lemma writeFrom_slice_written:
  assumes "k + length vs \<le> length xs"
  shows "take (length vs) (drop k (writeFrom k vs xs)) = vs"
proof (rule nth_equalityI)
  show "length (take (length vs) (drop k (writeFrom k vs xs))) = length vs"
    using assms by (simp add: writeFrom_length)
next
  fix i assume "i < length (take (length vs) (drop k (writeFrom k vs xs)))"
  then have i: "i < length vs" by simp
  then have "k + i < length xs" using assms by simp
  from writeFrom_nth [OF this, of k vs] i
  show "take (length vs) (drop k (writeFrom k vs xs)) ! i = vs ! i"
    using assms by (simp add: writeFrom_length)
qed

lemma writeFrom_slice_below:
  assumes "j + l \<le> k"
  shows "take l (drop j (writeFrom k vs xs)) = take l (drop j xs)"
proof (rule nth_equalityI)
  show "length (take l (drop j (writeFrom k vs xs))) = length (take l (drop j xs))"
    by (simp add: writeFrom_length)
next
  fix i assume "i < length (take l (drop j (writeFrom k vs xs)))"
  then have i: "i < l" "j + i < length xs" by (auto simp: writeFrom_length)
  have jl: "j \<le> length xs" "j \<le> length (writeFrom k vs xs)"
    using i(2) by (simp_all add: writeFrom_length)
  from writeFrom_nth [OF i(2), of k vs] i(1) assms jl
  show "take l (drop j (writeFrom k vs xs)) ! i = take l (drop j xs) ! i"
    by (simp add: nth_drop)
qed

lemma advance_Suc_back: "advance (Suc k) g = snd (random (advance k g))"
  by (induction k arbitrary: g) simp_all

lemma advance_add: "advance (k + 1) g = snd (random (advance k g))"
  using advance_Suc_back [of k g] by simp

lemma instanceMatrix_length: "length (instanceMatrix cfg leaf d1 d2 d3 d4) = 16"
  by (simp add: instanceMatrix_def Let_def)

lemma instanceColor_length: "length (instanceColor cfg d5 d6 d7) = 3"
  by (simp add: instanceColor_def Let_def)

lemma leafInstance_step_eq:
  "leafInstance_step lvs cfg m (ms, cs, advance (7 * m) g0) =
     (writeFrom (m * 16) (instanceMatrix cfg (lvs ! m) (draw g0 (7 * m)) (draw g0 (7 * m + 1))
                            (draw g0 (7 * m + 2)) (draw g0 (7 * m + 3))) ms,
      writeFrom (m * 3) (instanceColor cfg (draw g0 (7 * m + 4)) (draw g0 (7 * m + 5))
                           (draw g0 (7 * m + 6))) cs,
      advance (7 * Suc m) g0)"
proof -
  have a: "snd (random (advance k g0)) = advance (Suc k) g0" for k
    by (rule advance_Suc_back [symmetric])
  have s: "Suc (7 * m) = 7 * m + 1" "Suc (7 * m + 1) = 7 * m + 2" "Suc (7 * m + 2) = 7 * m + 3"
    "Suc (7 * m + 3) = 7 * m + 4" "Suc (7 * m + 4) = 7 * m + 5" "Suc (7 * m + 5) = 7 * m + 6"
    "Suc (7 * m + 6) = 7 * Suc m" by simp_all
  show ?thesis
    unfolding leafInstance_step_def Let_def case_prod_beta fst_conv snd_conv draw_def a s ..
qed


lemma leafInstance_fold:
  assumes "m \<le> n" and "length ms0 = n * 16" and "length cs0 = n * 3"
  shows "\<exists>ms cs. fold (leafInstance_step lvs cfg) [0..<m] (ms0, cs0, g0) = (ms, cs, advance (7 * m) g0)
           \<and> length ms = n * 16 \<and> length cs = n * 3
           \<and> (\<forall>i<m. take 16 (drop (16 * i) ms) = matrixOf cfg lvs g0 i
                   \<and> take 3 (drop (3 * i) cs) = colorOf cfg g0 i)"
  using assms(1)
proof (induction m)
  case 0
  then show ?case using assms(2,3) by simp
next
  case (Suc m)
  then have mn: "m < n" and "m \<le> n" by simp_all
  from Suc.IH [OF this(2)]
  obtain ms cs where f: "fold (leafInstance_step lvs cfg) [0..<m] (ms0, cs0, g0)
      = (ms, cs, advance (7 * m) g0)"
    and lm: "length ms = n * 16" and lc: "length cs = n * 3"
    and sl: "\<forall>i<m. take 16 (drop (16 * i) ms) = matrixOf cfg lvs g0 i
                   \<and> take 3 (drop (3 * i) cs) = colorOf cfg g0 i"
    by blast
  define ms' where "ms' = writeFrom (m * 16) (matrixOf cfg lvs g0 m) ms"
  define cs' where "cs' = writeFrom (m * 3) (colorOf cfg g0 m) cs"
  have step: "fold (leafInstance_step lvs cfg) [0..<Suc m] (ms0, cs0, g0)
      = (ms', cs', advance (7 * Suc m) g0)"
    by (simp add: f leafInstance_step_eq ms'_def cs'_def matrixOf_def colorOf_def)
  have ml: "length (matrixOf cfg lvs g0 m) = 16" by (simp add: matrixOf_def instanceMatrix_length)
  have cl: "length (colorOf cfg g0 m) = 3" by (simp add: colorOf_def instanceColor_length)
  have in_m: "m * 16 + length (matrixOf cfg lvs g0 m) \<le> length ms" using mn lm ml by simp
  have in_c: "m * 3 + length (colorOf cfg g0 m) \<le> length cs" using mn lc cl by simp
  have new_m: "take 16 (drop (16 * m) ms') = matrixOf cfg lvs g0 m"
    using writeFrom_slice_written [OF in_m] by (simp add: ms'_def ml mult.commute)
  have new_c: "take 3 (drop (3 * m) cs') = colorOf cfg g0 m"
    using writeFrom_slice_written [OF in_c] by (simp add: cs'_def cl mult.commute)
  have old: "take 16 (drop (16 * i) ms') = matrixOf cfg lvs g0 i
           \<and> take 3 (drop (3 * i) cs') = colorOf cfg g0 i" if "i < m" for i
  proof -
    have "16 * i + 16 \<le> m * 16" "3 * i + 3 \<le> m * 3" using that by simp_all
    then have "take 16 (drop (16 * i) ms') = take 16 (drop (16 * i) ms)"
      "take 3 (drop (3 * i) cs') = take 3 (drop (3 * i) cs)"
      unfolding ms'_def cs'_def by (simp_all add: writeFrom_slice_below)
    with sl that show ?thesis by simp
  qed
  have all: "\<forall>i<Suc m. take 16 (drop (16 * i) ms') = matrixOf cfg lvs g0 i
                   \<and> take 3 (drop (3 * i) cs') = colorOf cfg g0 i"
  proof (intro allI impI)
    fix i assume "i < Suc m"
    then consider "i < m" | "i = m" by linarith
    then show "take 16 (drop (16 * i) ms') = matrixOf cfg lvs g0 i
                   \<and> take 3 (drop (3 * i) cs') = colorOf cfg g0 i"
      using old new_m new_c by cases simp_all
  qed
  have "length ms' = n * 16" "length cs' = n * 3"
    by (simp_all add: ms'_def cs'_def writeFrom_length lm lc)
  with step all show ?case by blast
qed

lemma buildLeafInstances_stream:
  assumes "i < length lvs"
  shows "count (buildLeafInstances lvs cfg) = length lvs
       \<and> length (matrices (buildLeafInstances lvs cfg)) = 16 * length lvs
       \<and> length (colors (buildLeafInstances lvs cfg)) = 3 * length lvs
       \<and> take 16 (drop (16 * i) (matrices (buildLeafInstances lvs cfg)))
           = matrixOf cfg lvs (createRandom (leaf_seed cfg)) i
       \<and> take 3 (drop (3 * i) (colors (buildLeafInstances lvs cfg)))
           = colorOf cfg (createRandom (leaf_seed cfg)) i"
proof -
  define n where "n = length lvs"
  have n0: "n \<noteq> 0" using assms by (auto simp: n_def)
  from leafInstance_fold [of n n "replicate (n * 16) 0" "replicate (n * 3) 0" lvs cfg
      "createRandom (leaf_seed cfg)"]
  obtain ms cs where f: "fold (leafInstance_step lvs cfg) [0..<n]
        (replicate (n * 16) 0, replicate (n * 3) 0, createRandom (leaf_seed cfg))
      = (ms, cs, advance (7 * n) (createRandom (leaf_seed cfg)))"
    and l: "length ms = n * 16" "length cs = n * 3"
    and sl: "\<forall>i<n. take 16 (drop (16 * i) ms) = matrixOf cfg lvs (createRandom (leaf_seed cfg)) i
                   \<and> take 3 (drop (3 * i) cs) = colorOf cfg (createRandom (leaf_seed cfg)) i"
    by auto
  have b: "buildLeafInstances lvs cfg = \<lparr>matrices = ms, colors = cs, count = n\<rparr>"
    using n0 by (simp add: buildLeafInstances_def Let_def n_def [symmetric] f)
  from sl assms show ?thesis unfolding b by (simp add: n_def [symmetric] l)
qed


lemma selectRule_Some:
  assumes "rs \<noteq> []"
  shows "\<exists>r. fst (selectRule rs g) = Some r"
proof (cases "length rs = 1")
  case True
  then show ?thesis by (simp add: selectRule_def)
next
  case False
  have "lastRule rs = Some (rs ! (length rs - 1))" using assms by (simp add: lastRule_def)
  then show ?thesis using False
    by (simp add: selectRule_def Let_def case_prod_beta split: option.splits)
qed

lemma applyRules_loop_total:
  "\<exists>res g'. applyRules_loop sentence rs cfg result d g = Inr (res, g')"
proof (induction sentence arbitrary: result d g)
  case Nil
  then show ?case by simp
next
  case (Cons sy sentence)
  have IH: "\<exists>res g'. applyRules_loop sentence rs cfg result' d' g1 = Inr (res, g')"
    for result' d' g1 by (rule Cons.IH)
  show ?case
  proof (cases "symbol sy = ''['' \<or> symbol sy = '']''")
    case True
    then show ?thesis using IH by auto
  next
    case nb: False
    define mr where "mr = filter (\<lambda>rule. match rule = symbol sy) rs"
    show ?thesis
    proof (cases "mr = []")
      case True
      then show ?thesis using nb IH by (simp add: mr_def [symmetric])
    next
      case False
      from selectRule_Some [OF False, of g]
      obtain r where r: "fst (selectRule mr g) = Some r" by blast
      define g1 where "g1 = snd (selectRule mr g)"
      have sel: "selectRule mr g = (Some r, g1)" using r by (simp add: g1_def prod_eq_iff)
      show ?thesis
      proof (cases "produce r")
        case (Literal p)
        have "applyRules_loop (sy # sentence) rs cfg result d g
            = applyRules_loop sentence rs cfg (result @ fst (parseProduction p g1 cfg d)) d
                (snd (parseProduction p g1 cfg d))"
          using nb False by (simp add: mr_def [symmetric] sel Literal case_prod_beta)
        then show ?thesis using IH by simp
      next
        case (Generator f)
        have "applyRules_loop (sy # sentence) rs cfg result d g
            = applyRules_loop sentence rs cfg (result @ fst (f sy g1 cfg d)) d (snd (f sy g1 cfg d))"
          using nb False by (simp add: mr_def [symmetric] sel Generator case_prod_beta)
        then show ?thesis using IH by simp
      qed
    qed
  qed
qed

lemma generateSentence_loop_total:
  "\<exists>res g'. generateSentence_loop n ls sentence g = Inr (res, g')"
proof (induction n arbitrary: sentence g)
  case 0
  then show ?case by simp
next
  case (Suc n)
  from applyRules_loop_total [of sentence "rules ls" "config ls" "[]" 0 g]
  obtain res g' where "applyRules sentence (rules ls) g (config ls) = Inr (res, g')"
    by (auto simp: applyRules_def)
  then show ?case using Suc.IH [of res g'] by simp
qed

lemma generateSentence_total: "\<exists>sentence. generateSentence ls n seed0 = Inr sentence"
proof -
  define p where "p = parseProduction (axiom ls) (createRandom seed0) (config ls) 0"
  from generateSentence_loop_total [of n ls "fst p" "snd p"]
  obtain res g' where "generateSentence_loop n ls (fst p) (snd p) = Inr (res, g')" by blast
  then show ?thesis by (simp add: generateSentence_def Let_def case_prod_beta p_def)
qed

lemma interpretSentence_total: "\<exists>sk. interpretSentence sentence cfg = Inr sk"
proof -
  from interpretSymbols_inv [OF initialInterp_inv, of cfg sentence]
  obtain it where "interpretSymbols cfg sentence (initialInterp cfg) = Inr it" by blast
  then show ?thesis by (simp add: interpretSentence_def)
qed

lemma buildTree_leafMesh:
  "\<exists>sentence sk res.
      generateSentence (lsystem c) (iterations c) (seed c) = Inr sentence
    \<and> interpretSentence sentence (turtleConfig c) = Inr sk
    \<and> buildTree c = Inr res
    \<and> leafMesh res = (if leaves sk = [] then None
                       else Some (createLeafShape (leafShapeConfig c),
                                  buildLeafInstances (leaves sk) (leafInstanceConfig c)))"
proof -
  from generateSentence_total
  obtain sentence where s: "generateSentence (lsystem c) (iterations c) (seed c) = Inr sentence"
    by blast
  from interpretSentence_total
  obtain sk where k: "interpretSentence sentence (turtleConfig c) = Inr sk" by blast
  from buildBranchGeometry_total [OF interpretSentence_resolved [OF k]]
  obtain g where g: "buildBranchGeometry sk (branchConfig c) = Inr g" by blast
  obtain res where res: "buildTree c = Inr res"
    by (simp add: buildTree_def s k g Let_def)
  then have "leafMesh res = (if leaves sk = [] then None
                       else Some (createLeafShape (leafShapeConfig c),
                                  buildLeafInstances (leaves sk) (leafInstanceConfig c)))"
    by (auto simp: buildTree_def s k g Let_def)
  with s k res show ?thesis by blast
qed


text \<open>
  C1, as stated, at the default tree configuration: its base seed is \<open>default-tree\<close> and
  the seed of its leaf stream is \<open>leaves\<close>, which is not the base seed followed by a
  suffix.
\<close>

theorem defaultTreeConfig_leaf_seed_counterexample:
  "seed defaultTreeConfig = ''default-tree''
   \<and> leaf_seed (leafInstanceConfig defaultTreeConfig) = ''leaves''
   \<and> \<not> prefix (seed defaultTreeConfig) (leaf_seed (leafInstanceConfig defaultTreeConfig))"
  by (simp add: defaultTreeConfig_def)

text \<open>
  C1, amended: \<open>buildLeafInstances\<close> draws all of its randomness from one generator of
  its own, created from the field \<open>seed\<close> of the leaf instance configuration: instance
  \<open>i\<close> takes the draws \<open>7 i, \<dots>, 7 i + 6\<close> of that generator, the first four for the
  size multiplier and the rotational scatter in its matrix, the last three for its
  colour.  \<open>buildTree\<close> never fails and hands \<open>buildLeafInstances\<close> the leaf points of the
  skeleton and the leaf instance configuration as it is, so the leaf variation is a
  function of these two alone and the base seed enters only through the leaf points.
\<close>

theorem leaf_instance_stream:
  "(\<forall>i<length lvs.
       take 16 (drop (16 * i) (matrices (buildLeafInstances lvs cfg)))
         = matrixOf cfg lvs (createRandom (leaf_seed cfg)) i
     \<and> take 3 (drop (3 * i) (colors (buildLeafInstances lvs cfg)))
         = colorOf cfg (createRandom (leaf_seed cfg)) i)
   \<and> count (buildLeafInstances lvs cfg) = length lvs
   \<and> (\<exists>sentence sk res.
         generateSentence (lsystem c) (iterations c) (seed c) = Inr sentence
       \<and> interpretSentence sentence (turtleConfig c) = Inr sk
       \<and> buildTree c = Inr res
       \<and> leafMesh res = (if leaves sk = [] then None
                          else Some (createLeafShape (leafShapeConfig c),
                                     buildLeafInstances (leaves sk) (leafInstanceConfig c))))"
proof -
  have a: "\<forall>i<length lvs.
       take 16 (drop (16 * i) (matrices (buildLeafInstances lvs cfg)))
         = matrixOf cfg lvs (createRandom (leaf_seed cfg)) i
     \<and> take 3 (drop (3 * i) (colors (buildLeafInstances lvs cfg)))
         = colorOf cfg (createRandom (leaf_seed cfg)) i"
    using buildLeafInstances_stream [of _ lvs cfg] by blast
  have b: "count (buildLeafInstances lvs cfg) = length lvs"
    by (cases "lvs = []") (simp_all add: buildLeafInstances_def Let_def case_prod_beta)
  from a b buildTree_leafMesh [of c] show ?thesis by blast
qed

text \<open>
  One leaf under the default leaf configuration, and the tree of the axiom \<open>L\<close> without
  rules, which has one leaf.
\<close>

theorem leaf_instance_stream_witness:
  "(0::nat) < length [\<lparr>l_position = vec3 0 0 0, l_orientation = identityQuat, l_size = 1\<rparr>]
   \<and> take 3 (drop (3 * 0) (colors (buildLeafInstances
         [\<lparr>l_position = vec3 0 0 0, l_orientation = identityQuat, l_size = 1\<rparr>]
         (leafInstanceConfig defaultTreeConfig))))
       = colorOf (leafInstanceConfig defaultTreeConfig) (createRandom ''leaves'') 0
   \<and> (\<exists>sk res.
         interpretSentence [\<lparr>symbol = ''L'', params = noParams\<lparr>p_size := Some 1\<rparr>\<rparr>]
           (turtleConfig defaultTreeConfig) = Inr sk
       \<and> leaves sk \<noteq> []
       \<and> buildTree (defaultTreeConfig\<lparr>lsystem := \<lparr>axiom = ''L'', rules = [],
                                                    config = config (lsystem defaultTreeConfig)\<rparr>,
                                       iterations := 0\<rparr>) = Inr res
       \<and> leafMesh res = Some (createLeafShape (leafShapeConfig defaultTreeConfig),
                               buildLeafInstances (leaves sk) (leafInstanceConfig defaultTreeConfig)))"
proof -
  define leaf0 where "leaf0 = \<lparr>l_position = vec3 0 0 0, l_orientation = identityQuat, l_size = 1\<rparr>"
  define c1 where "c1 = defaultTreeConfig\<lparr>lsystem := \<lparr>axiom = ''L'', rules = [],
                                                    config = config (lsystem defaultTreeConfig)\<rparr>,
                                       iterations := 0\<rparr>"
  define s1 where "s1 = [\<lparr>symbol = ''L'', params = noParams\<lparr>p_size := Some 1\<rparr>\<rparr>]"
  have ls: "leaf_seed (leafInstanceConfig defaultTreeConfig) = ''leaves''"
    by (simp add: defaultTreeConfig_def)
  have gs: "generateSentence (lsystem c1) (iterations c1) (seed c1) = Inr s1"
    by (simp add: c1_def s1_def generateSentence_def parseProduction_def createSymbol_def
        rotationSymbols_def Let_def)
  have cf: "turtleConfig c1 = turtleConfig defaultTreeConfig"
    "leafShapeConfig c1 = leafShapeConfig defaultTreeConfig"
    "leafInstanceConfig c1 = leafInstanceConfig defaultTreeConfig"
    by (simp_all add: c1_def)
  from leaf_instance_stream [of "[leaf0]" "leafInstanceConfig defaultTreeConfig" c1]
  have col: "\<forall>i<length [leaf0].
       take 16 (drop (16 * i) (matrices (buildLeafInstances [leaf0] (leafInstanceConfig defaultTreeConfig))))
         = matrixOf (leafInstanceConfig defaultTreeConfig) [leaf0]
             (createRandom (leaf_seed (leafInstanceConfig defaultTreeConfig))) i
     \<and> take 3 (drop (3 * i) (colors (buildLeafInstances [leaf0] (leafInstanceConfig defaultTreeConfig))))
         = colorOf (leafInstanceConfig defaultTreeConfig)
             (createRandom (leaf_seed (leafInstanceConfig defaultTreeConfig))) i"
    and ex: "\<exists>sentence sk res.
         generateSentence (lsystem c1) (iterations c1) (seed c1) = Inr sentence
       \<and> interpretSentence sentence (turtleConfig c1) = Inr sk
       \<and> buildTree c1 = Inr res
       \<and> leafMesh res = (if leaves sk = [] then None
                          else Some (createLeafShape (leafShapeConfig c1),
                                     buildLeafInstances (leaves sk) (leafInstanceConfig c1)))"
    by blast+
  have z: "(0::nat) < length [leaf0]" by simp
  from col z have c0: "take 3 (drop (3 * 0) (colors (buildLeafInstances [leaf0]
         (leafInstanceConfig defaultTreeConfig))))
       = colorOf (leafInstanceConfig defaultTreeConfig) (createRandom ''leaves'') 0"
    unfolding ls by blast
  from ex gs obtain sk res where k: "interpretSentence s1 (turtleConfig c1) = Inr sk"
    and r: "buildTree c1 = Inr res"
    and m: "leafMesh res = (if leaves sk = [] then None
                          else Some (createLeafShape (leafShapeConfig c1),
                                     buildLeafInstances (leaves sk) (leafInstanceConfig c1)))"
    by auto
  have "length (leaves sk) = 1"
    using k by (auto simp: interpretSentence_def s1_def interpretSymbol_def initialInterp_def
        Let_def noParams_def)
  then have ne: "leaves sk \<noteq> []" by auto
  with m have m': "leafMesh res = Some (createLeafShape (leafShapeConfig defaultTreeConfig),
                               buildLeafInstances (leaves sk) (leafInstanceConfig defaultTreeConfig))"
    by (simp add: cf)
  from k ne r m' have "\<exists>sk res.
         interpretSentence s1 (turtleConfig defaultTreeConfig) = Inr sk
       \<and> leaves sk \<noteq> []
       \<and> buildTree c1 = Inr res
       \<and> leafMesh res = Some (createLeafShape (leafShapeConfig defaultTreeConfig),
                               buildLeafInstances (leaves sk) (leafInstanceConfig defaultTreeConfig))"
    unfolding cf by blast
  with z c0 show ?thesis unfolding leaf0_def c1_def s1_def by blast
qed

end
